theory Spec2Isabelle
  imports Complex_Main "HOL-Library.AList"
begin

section \<open>JavaScript values used by the tab bar\<close>

text \<open>
  A JavaScript number is an IEEE 754 double. The inputs of the tab bar that measure
  lengths (widths, heights, insets, scroll offsets, durations) are finite reals; where an
  arithmetic result decides what the code does next (the sum of the item widths, the
  quotient behind the page index), the operation is the one on doubles: a real stands for
  the double nearest to it, as a numeric literal does, and the result is rounded to the
  nearest double, a tie going to the even one. A result too large for a double is an
  infinity, and the quotient of a division by zero is \<open>NaN\<close> or an infinity.
\<close>

datatype jsnum = Finite real | NaN | PosInfinity | NegInfinity

datatype error = TypeError

text \<open>Two to the power of an integer.\<close>

definition pow2 :: "int \<Rightarrow> real" where
  "pow2 k = (if 0 \<le> k then 2 ^ nat k else 1 / 2 ^ nat (- k))"

text \<open>
  The binade of a positive number \<open>x\<close> is the integer \<open>e\<close> with
  \<open>pow2 e \<le> x < pow2 (e + 1)\<close>: the number of times \<open>x\<close> can be halved before it is
  below 2, or minus the number of times it must be doubled to reach 1.
\<close>

function halvings :: "real \<Rightarrow> int" where
  "halvings x = (if 2 \<le> x then halvings (x / 2) + 1 else 0)"
  by pat_completeness auto
termination
proof (relation "measure (\<lambda>x. nat \<lfloor>x\<rfloor>)")
  show "wf (measure (\<lambda>x. nat \<lfloor>x\<rfloor>))" by simp
next
  fix x :: real assume "2 \<le> x"
  then have "\<lfloor>x / 2\<rfloor> < \<lfloor>x\<rfloor>" by linarith
  moreover have "0 < \<lfloor>x\<rfloor>" using \<open>2 \<le> x\<close> by linarith
  ultimately show "(x / 2, x) \<in> measure (\<lambda>x. nat \<lfloor>x\<rfloor>)" by simp
qed

function doublings :: "real \<Rightarrow> int" where
  "doublings x = (if 0 < x \<and> x < 1 then doublings (2 * x) + 1 else 0)"
  by pat_completeness auto
termination
proof (relation "measure (\<lambda>x. nat \<lceil>1 / x\<rceil>)")
  show "wf (measure (\<lambda>x. nat \<lceil>1 / x\<rceil>))" by simp
next
  fix x :: real assume a: "0 < x \<and> x < 1"
  then have y: "1 < 1 / x" by simp
  have "\<lceil>1 / (2 * x)\<rceil> < \<lceil>1 / x\<rceil>"
  proof -
    define y where "y = 1 / x"
    have y1: "1 < y" using y by (simp add: y_def)
    have c: "y \<le> of_int \<lceil>y\<rceil>" by (rule le_of_int_ceiling)
    have "1 < \<lceil>y\<rceil>" using y1 by (simp add: less_ceiling_iff)
    then have c2: "(2::real) \<le> of_int \<lceil>y\<rceil>" by linarith
    have "y / 2 \<le> of_int \<lceil>y\<rceil> - 1" using y1 c c2 by linarith
    then have lt: "\<lceil>y / 2\<rceil> < \<lceil>y\<rceil>" by (simp add: ceiling_less_iff)
    have e: "1 / (2 * x) = y / 2" by (simp add: y_def)
    show ?thesis using lt unfolding e y_def .
  qed
  moreover have "0 < \<lceil>1 / x\<rceil>" using y by linarith
  ultimately show "(2 * x, x) \<in> measure (\<lambda>x. nat \<lceil>1 / x\<rceil>)" by simp
qed

definition binade :: "real \<Rightarrow> int" where
  "binade x = (if 1 \<le> x then halvings x else - doublings x)"

text \<open>The integer nearest to \<open>n\<close>, the even one of the two when \<open>n\<close> is half way.\<close>

definition round_half_even :: "real \<Rightarrow> int" where
  "round_half_even n =
     (let f = \<lfloor>n\<rfloor>; d = n - of_int f in
      if d < 1 / 2 then f
      else if 1 / 2 < d then f + 1
      else if even f then f else f + 1)"

text \<open>
  The double nearest to a real: 53 significant bits in the binade of the number, the
  spacing of the subnormal numbers below \<open>pow2 (- 1022)\<close>, and an infinity when the
  rounded magnitude reaches \<open>pow2 1024\<close>.
\<close>

definition double :: "real \<Rightarrow> jsnum" where
  "double x =
     (if x = 0 then Finite 0
      else
        (let e = max (binade \<bar>x\<bar>) (- 1022);
             q = pow2 (e - 52);
             y = of_int (round_half_even (x / q)) * q
         in if pow2 1024 \<le> \<bar>y\<bar> then (if 0 < x then PosInfinity else NegInfinity)
            else Finite y))"

text \<open>\<open>a + b\<close> on numbers.\<close>

fun js_add :: "jsnum \<Rightarrow> jsnum \<Rightarrow> jsnum" where
  "js_add (Finite a) (Finite b) = double (a + b)"
| "js_add NaN b = NaN"
| "js_add a NaN = NaN"
| "js_add PosInfinity NegInfinity = NaN"
| "js_add NegInfinity PosInfinity = NaN"
| "js_add PosInfinity b = PosInfinity"
| "js_add a PosInfinity = PosInfinity"
| "js_add NegInfinity b = NegInfinity"
| "js_add a NegInfinity = NegInfinity"

text \<open>\<open>a / b\<close> on numbers (a zero is taken as \<open>+0\<close>).\<close>

fun js_div :: "jsnum \<Rightarrow> jsnum \<Rightarrow> jsnum" where
  "js_div (Finite a) (Finite b) =
     (if b \<noteq> 0 then double (a / b)
      else if a = 0 then NaN
      else if 0 < a then PosInfinity
      else NegInfinity)"
| "js_div NaN b = NaN"
| "js_div a NaN = NaN"
| "js_div (Finite a) b = Finite 0"
| "js_div PosInfinity (Finite b) = (if 0 \<le> b then PosInfinity else NegInfinity)"
| "js_div NegInfinity (Finite b) = (if 0 \<le> b then NegInfinity else PosInfinity)"
| "js_div a b = NaN"

text \<open>\<open>x / y\<close> on two inputs, each read as a double.\<close>

definition js_divide :: "real \<Rightarrow> real \<Rightarrow> jsnum" where
  "js_divide x y = js_div (double x) (double y)"

text \<open>\<open>Math.round\<close>: the nearest integer, a tie going up, which is \<open>\<lfloor>x + 1/2\<rfloor>\<close>.\<close>

fun Math_round :: "jsnum \<Rightarrow> jsnum" where
  "Math_round (Finite x) = Finite (of_int (round x))"
| "Math_round NaN = NaN"
| "Math_round PosInfinity = PosInfinity"
| "Math_round NegInfinity = NegInfinity"

text \<open>\<open>a !== b\<close> on numbers: \<open>NaN\<close> differs from everything, itself included.\<close>

definition strict_not_equal :: "jsnum \<Rightarrow> jsnum \<Rightarrow> bool" where
  "strict_not_equal a b \<longleftrightarrow> a = NaN \<or> b = NaN \<or> a \<noteq> b"

text \<open>\<open>a <= b\<close> on numbers: false as soon as one side is \<open>NaN\<close>.\<close>

fun js_le :: "jsnum \<Rightarrow> jsnum \<Rightarrow> bool" where
  "js_le NaN b = False"
| "js_le a NaN = False"
| "js_le NegInfinity b = True"
| "js_le a PosInfinity = True"
| "js_le (Finite x) (Finite y) = (x \<le> y)"
| "js_le a b = False"

definition js_ge :: "jsnum \<Rightarrow> jsnum \<Rightarrow> bool" where
  "js_ge a b = js_le b a"

text \<open>\<open>a < b\<close> on numbers: false as soon as one side is \<open>NaN\<close>.\<close>

definition js_lt :: "jsnum \<Rightarrow> jsnum \<Rightarrow> bool" where
  "js_lt a b \<longleftrightarrow> js_le a b \<and> a \<noteq> b"

text \<open>\<open>a + 1\<close>.\<close>

fun js_succ :: "jsnum \<Rightarrow> jsnum" where
  "js_succ (Finite x) = Finite (x + 1)"
| "js_succ a = a"

text \<open>
  A JavaScript array, holes included: \<open>None\<close> is an empty slot, which reads as
  \<open>undefined\<close>. Reading beyond the end gives \<open>undefined\<close> as well; writing beyond the end
  extends the array and leaves holes in between.
\<close>

type_synonym 'a js_array = "'a option list"

definition js_get :: "'a js_array \<Rightarrow> nat \<Rightarrow> 'a option" where
  "js_get a i = (if i < length a then a ! i else None)"

definition js_set :: "'a js_array \<Rightarrow> nat \<Rightarrow> 'a \<Rightarrow> 'a js_array" where
  "js_set a i v =
     (if i < length a then a[i := Some v]
      else a @ replicate (i - length a) None @ [Some v])"

text \<open>
  \<open>a[k]\<close> with a number \<open>k\<close> as the key: an element only when \<open>k\<close> is a non-negative
  integer, any other key names a property the array does not have.
\<close>

fun js_at :: "'a js_array \<Rightarrow> jsnum \<Rightarrow> 'a option" where
  "js_at a (Finite k) = (if 0 \<le> k \<and> of_int \<lfloor>k\<rfloor> = k then js_get a (nat \<lfloor>k\<rfloor>) else None)"
| "js_at a k = None"

text \<open>\<open>array.reduce(f, init)\<close>, the callback receiving the accumulator, the item and its index.\<close>

fun reduce_from :: "('b \<Rightarrow> 'a \<Rightarrow> nat \<Rightarrow> 'b) \<Rightarrow> 'b \<Rightarrow> nat \<Rightarrow> 'a list \<Rightarrow> 'b" where
  "reduce_from f acc i [] = acc"
| "reduce_from f acc i (item # rest) = reduce_from f (f acc item i) (Suc i) rest"

definition reduce :: "('b \<Rightarrow> 'a \<Rightarrow> nat \<Rightarrow> 'b) \<Rightarrow> 'b \<Rightarrow> 'a list \<Rightarrow> 'b" where
  "reduce f init array = reduce_from f init 0 array"

section \<open>Styles\<close>

text \<open>
  A style property holds a number, or something whose \<open>typeof\<close> is not \<open>number\<close>: a
  keyword or percentage string, or an explicit \<open>undefined\<close>. A style is \<open>null\<close>, an
  object, or an array of styles. \<open>StyleSheet.flatten\<close> belongs to the rendering host; it is
  modelled as the host documents it: nothing for \<open>null\<close>, the object itself for an object,
  and for an array the merge of its flattened entries, later entries overriding earlier ones.
\<close>

datatype style_value = Number real | Keyword string | Undef

datatype style = StyleNull | StyleObject "(string \<times> style_value) list" | StyleArray "style list"

fun flatten :: "style \<Rightarrow> (string \<rightharpoonup> style_value) option"
  and flatten_into :: "(string \<rightharpoonup> style_value) \<Rightarrow> style list \<Rightarrow> (string \<rightharpoonup> style_value)" where
  "flatten StyleNull = None"
| "flatten (StyleObject props) = Some (map_of props)"
| "flatten (StyleArray entries) = Some (flatten_into Map.empty entries)"
| "flatten_into result [] = result"
| "flatten_into result (entry # rest) =
     (case flatten entry of
        None \<Rightarrow> flatten_into result rest
      | Some computedStyle \<Rightarrow> flatten_into (result ++ computedStyle) rest)"

section \<open>Navigation state, options and descriptors\<close>

record route =
  key :: string
  name :: string

record nav_state =
  state_key :: string
  index :: nat
  routes :: "route list"

datatype label_position = BesideIcon | BelowIcon

text \<open>A label is a string or a render function (kept opaque, told apart by an identifier).\<close>

datatype label = LabelText string | LabelRenderer nat

datatype animation_kind = Spring | Timing

text \<open>
  The \<open>config\<close> of a visibility animation is handed to the animation driver as it is; of
  its fields only \<open>duration\<close> has a default in this code. Its type has neither \<open>toValue\<close>
  nor \<open>useNativeDriver\<close>.
\<close>

record animation_config =
  config_duration :: "real option"

record animation_spec =
  animation :: animation_kind
  config :: "animation_config option"

record visibility_config =
  show_spec :: "animation_spec option"
  hide_spec :: "animation_spec option"

text \<open>The per-route options this code reads; \<open>None\<close> is \<open>undefined\<close>.\<close>

record options =
  tabBarLabelPosition :: "label_position option"
  tabBarItemStyle :: style
  tabBarStyle :: style
  tabBarLabel :: "label option"
  title :: "string option"
  tabBarHideOnKeyboard :: "bool option"
  tabBarVisibilityAnimationConfig :: "visibility_config option"

record descriptor =
  options :: options

type_synonym descriptors = "string \<rightharpoonup> descriptor"

record dims =
  height :: real
  width :: real

record EdgeInsets =
  bottom :: real

datatype os = Ios | Android | Web | Macos | Windows

record Platform =
  OS :: os
  isPad :: bool

text \<open>\<open>Platform.select({ ios: a, default: b })\<close>.\<close>

definition Platform_select :: "Platform \<Rightarrow> 'a \<Rightarrow> 'a \<Rightarrow> 'a" where
  "Platform_select platform ios_value default_value =
     (if OS platform = Ios then ios_value else default_value)"

definition DEFAULT_TABBAR_HEIGHT :: real where
  "DEFAULT_TABBAR_HEIGHT = 49"

definition COMPACT_TABBAR_HEIGHT :: real where
  "COMPACT_TABBAR_HEIGHT = 32"

definition DEFAULT_MAX_TAB_ITEM_WIDTH :: real where
  "DEFAULT_MAX_TAB_ITEM_WIDTH = 125"

definition useNativeDriver :: "Platform \<Rightarrow> bool" where
  "useNativeDriver platform \<longleftrightarrow> OS platform \<noteq> Web"

section \<open>chunkArray and the pages\<close>

text \<open>
  One step of the reduction in \<open>chunkArray\<close>: the chunk index is
  \<open>Math.floor(index / chunkSize)\<close>; a chunk that does not exist yet is started, then the
  item is pushed onto it.
\<close>

definition chunk_step :: "real \<Rightarrow> 'a list js_array \<Rightarrow> 'a \<Rightarrow> nat \<Rightarrow> 'a list js_array" where
  "chunk_step chunkSize result item i =
     (let chunkIndex = nat \<lfloor>real i / chunkSize\<rfloor> in
      case js_get result chunkIndex of
        None \<Rightarrow> js_set result chunkIndex ([] @ [item])
      | Some chunk \<Rightarrow> js_set result chunkIndex (chunk @ [item]))"

text \<open>
  With a chunk size that is zero or negative the chunk index of a non-empty array is
  \<open>NaN\<close>, an infinity or negative, and JavaScript stores the chunk under a property that
  is not an element of the result. The model does not represent such properties: it
  answers \<open>None\<close> there.
\<close>

definition chunkArray :: "'a list \<Rightarrow> real \<Rightarrow> 'a list js_array option" where
  "chunkArray array chunkSize =
     (if array = [] then Some []
      else if 0 < chunkSize then Some (reduce (chunk_step chunkSize) [] array)
      else None)"

text \<open>The \<open>tabCountPerPage\<close> prop defaults to 4 when it is not given.\<close>

definition tabCountPerPage_default :: "real option \<Rightarrow> real" where
  "tabCountPerPage_default tabCountPerPage = (case tabCountPerPage of None \<Rightarrow> 4 | Some n \<Rightarrow> n)"

definition pages :: "bool \<Rightarrow> 'a list \<Rightarrow> real option \<Rightarrow> 'a list js_array option" where
  "pages scrollEnabled state_routes tabCountPerPage =
     (if scrollEnabled then chunkArray state_routes (tabCountPerPage_default tabCountPerPage)
      else Some [])"

section \<open>shouldUseHorizontalLabels and getTabBarHeight\<close>

text \<open>\<open>descriptors[route.key].options\<close>: a missing descriptor makes the property read throw.\<close>

definition descriptor_options :: "descriptors \<Rightarrow> route \<Rightarrow> error + options" where
  "descriptor_options descriptors r =
     (case descriptors (key r) of None \<Rightarrow> Inl TypeError | Some d \<Rightarrow> Inr (options d))"

text \<open>\<open>descriptors[state.routes[state.index].key].options\<close>.\<close>

definition focused_options :: "nav_state \<Rightarrow> descriptors \<Rightarrow> error + options" where
  "focused_options state descriptors =
     (if index state < length (routes state)
      then descriptor_options descriptors (routes state ! index state)
      else Inl TypeError)"

definition maxTabWidth_step :: "descriptors \<Rightarrow> error + jsnum \<Rightarrow> route \<Rightarrow> nat \<Rightarrow> error + jsnum" where
  "maxTabWidth_step descriptors acc r i =
     (case acc of
        Inl e \<Rightarrow> Inl e
      | Inr a \<Rightarrow>
         (case descriptor_options descriptors r of
            Inl e \<Rightarrow> Inl e
          | Inr opts \<Rightarrow>
             (case flatten (tabBarItemStyle opts) of
                None \<Rightarrow> Inr (js_add a (double DEFAULT_MAX_TAB_ITEM_WIDTH))
              | Some flattenedStyle \<Rightarrow>
                 (case flattenedStyle ''width'' of
                    Some (Number w) \<Rightarrow> Inr (js_add a (double w))
                  | _ \<Rightarrow>
                     (case flattenedStyle ''maxWidth'' of
                        Some (Number m) \<Rightarrow> Inr (js_add a (double m))
                      | _ \<Rightarrow> Inr (js_add a (double DEFAULT_MAX_TAB_ITEM_WIDTH)))))))"

definition shouldUseHorizontalLabels ::
  "nav_state \<Rightarrow> descriptors \<Rightarrow> dims \<Rightarrow> dims \<Rightarrow> error + bool" where
  "shouldUseHorizontalLabels state descriptors layout dimensions =
     (case focused_options state descriptors of
        Inl e \<Rightarrow> Inl e
      | Inr opts \<Rightarrow>
         (case tabBarLabelPosition opts of
            Some BesideIcon \<Rightarrow> Inr True
          | Some BelowIcon \<Rightarrow> Inr False
          | None \<Rightarrow>
             if js_ge (double (width layout)) (Finite 768) then
               (case reduce (maxTabWidth_step descriptors) (Inr (Finite 0)) (routes state) of
                  Inl e \<Rightarrow> Inl e
                | Inr maxTabWidth \<Rightarrow> Inr (js_le maxTabWidth (double (width layout))))
             else Inr (js_lt (double (height dimensions)) (double (width dimensions)))))"

definition getPaddingBottom :: "Platform \<Rightarrow> EdgeInsets \<Rightarrow> real" where
  "getPaddingBottom platform insets = max (bottom insets - Platform_select platform 4 0) 0"

text \<open>\<open>StyleSheet.flatten(style)?.height\<close>.\<close>

definition customHeight :: "style \<Rightarrow> style_value option" where
  "customHeight st = (case flatten st of None \<Rightarrow> None | Some flattened \<Rightarrow> flattened ''height'')"

definition getTabBarHeight ::
  "Platform \<Rightarrow> nav_state \<Rightarrow> descriptors \<Rightarrow> dims \<Rightarrow> dims \<Rightarrow> EdgeInsets \<Rightarrow> style \<Rightarrow> error + real" where
  "getTabBarHeight platform state descriptors layout dimensions insets st =
     (case customHeight st of
        Some (Number h) \<Rightarrow> Inr h
      | _ \<Rightarrow>
         (let isLandscape = height dimensions < width dimensions in
          case shouldUseHorizontalLabels state descriptors layout dimensions of
            Inl e \<Rightarrow> Inl e
          | Inr horizontalLabels \<Rightarrow>
             (let paddingBottom = getPaddingBottom platform insets in
              if OS platform = Ios \<and> \<not> isPad platform \<and> isLandscape \<and> horizontalLabels
              then Inr (COMPACT_TABBAR_HEIGHT + paddingBottom)
              else Inr (DEFAULT_TABBAR_HEIGHT + paddingBottom))))"

section \<open>TabRoutes\<close>

record event =
  event_type :: string
  target :: string
  canPreventDefault :: bool

record action =
  action_type :: string
  payload_name :: string
  payload_merge :: bool
  action_target :: "string option"

text \<open>\<open>CommonActions.navigate({ name, merge })\<close> of the navigation library builds the action.\<close>

definition CommonActions_navigate :: "string \<Rightarrow> bool \<Rightarrow> action" where
  "CommonActions_navigate n merge =
     \<lparr>action_type = ''NAVIGATE'', payload_name = n, payload_merge = merge, action_target = None\<rparr>"

text \<open>What a handler does to the navigation object, in order.\<close>

datatype effect = Emit event | Dispatch action

text \<open>
  \<open>onPress\<close> of the tab of \<open>route\<close> at position \<open>i\<close>. \<open>defaultPrevented\<close> stands for the
  listeners: it tells whether the emitted event comes back with its default prevented.
\<close>

definition onPress :: "nav_state \<Rightarrow> (event \<Rightarrow> bool) \<Rightarrow> nat \<Rightarrow> route \<Rightarrow> effect list" where
  "onPress state defaultPrevented i r =
     (let focused = (i = index state);
          ev = \<lparr>event_type = ''tabPress'', target = key r, canPreventDefault = True\<rparr>
      in Emit ev #
         (if \<not> focused \<and> \<not> defaultPrevented ev
          then [Dispatch ((CommonActions_navigate (name r) True)\<lparr>action_target := Some (state_key state)\<rparr>)]
          else []))"

text \<open>The label handed to the tab item; \<open>None\<close> is \<open>undefined\<close>.\<close>

definition item_label :: "options \<Rightarrow> route \<Rightarrow> label option" where
  "item_label opts r =
     (if tabBarLabel opts \<noteq> None then tabBarLabel opts
      else if title opts \<noteq> None then map_option LabelText (title opts)
      else Some (LabelText (name r)))"

text \<open>The props of one rendered tab item that the handlers and the label decide.\<close>

record tab_item =
  item_route :: route
  item_focused :: bool
  item_horizontal :: bool
  item_onPress :: "effect list"
  label_prop :: "label option"

definition tab_item_of ::
  "nav_state \<Rightarrow> descriptors \<Rightarrow> (event \<Rightarrow> bool) \<Rightarrow> bool \<Rightarrow> nat \<Rightarrow> route \<Rightarrow> error + tab_item" where
  "tab_item_of state descriptors defaultPrevented hasHorizontalLabels i r =
     (case descriptor_options descriptors r of
        Inl e \<Rightarrow> Inl e
      | Inr opts \<Rightarrow>
          Inr \<lparr>item_route = r,
               item_focused = (i = index state),
               item_horizontal = hasHorizontalLabels,
               item_onPress = onPress state defaultPrevented i r,
               label_prop = item_label opts r\<rparr>)"

text \<open>\<open>routes.map((route, index) => ...)\<close> with a callback that may throw.\<close>

fun map_from :: "(nat \<Rightarrow> 'a \<Rightarrow> error + 'b) \<Rightarrow> nat \<Rightarrow> 'a list \<Rightarrow> error + 'b list" where
  "map_from f i [] = Inr []"
| "map_from f i (x # xs) =
     (case f i x of
        Inl e \<Rightarrow> Inl e
      | Inr y \<Rightarrow> (case map_from f (Suc i) xs of Inl e \<Rightarrow> Inl e | Inr ys \<Rightarrow> Inr (y # ys)))"

definition TabRoutes ::
  "nav_state \<Rightarrow> descriptors \<Rightarrow> dims \<Rightarrow> dims \<Rightarrow> (event \<Rightarrow> bool) \<Rightarrow> error + tab_item list" where
  "TabRoutes state descriptors layout dimensions defaultPrevented =
     (case shouldUseHorizontalLabels state descriptors layout dimensions of
        Inl e \<Rightarrow> Inl e
      | Inr hasHorizontalLabels \<Rightarrow>
          map_from (tab_item_of state descriptors defaultPrevented hasHorizontalLabels) 0
            (routes state))"

text \<open>
  The invariant of the data the router hands over: the index points at a route, and every
  route has its descriptor.
\<close>

definition well_formed :: "nav_state \<Rightarrow> descriptors \<Rightarrow> bool" where
  "well_formed state descriptors \<longleftrightarrow>
     index state < length (routes state)
     \<and> list_all (\<lambda>r. descriptors (key r) \<noteq> None) (routes state)"

section \<open>BottomTabBar: component state\<close>

text \<open>
  What \<open>Animated.timing(visible, config)\<close> or \<open>Animated.spring(visible, config)\<close> runs
  once started, together with the callback given to \<open>start\<close>. The show animation is
  started with a callback that clears \<open>isTabBarHidden\<close> when it is told that the animation
  finished; the hide animation is started without one.
\<close>

datatype end_callback = NoCallback | ClearHiddenIfFinished

record running_animation =
  kind :: animation_kind
  toValue :: real
  nativeDriver :: bool
  duration :: real
  callback :: end_callback

text \<open>
  The state of one mounted tab bar: the \<open>isTabBarHidden\<close> and \<open>selectedPage\<close> state cells,
  the current number of the animated value \<open>visible\<close> with the animation running on it,
  and the measured layout.
\<close>

record bar_state =
  isTabBarHidden :: bool
  selectedPage :: jsnum
  visible :: real
  visible_animation :: "running_animation option"
  layout :: dims

definition shouldShowTabBar :: "options \<Rightarrow> bool \<Rightarrow> bool" where
  "shouldShowTabBar focusedOptions isKeyboardShown \<longleftrightarrow>
     \<not> ((case tabBarHideOnKeyboard focusedOptions of None \<Rightarrow> False | Some b \<Rightarrow> b)
        \<and> isKeyboardShown)"

definition initial_state :: "bool \<Rightarrow> dims \<Rightarrow> bar_state" where
  "initial_state shouldShow dimensions =
     \<lparr>isTabBarHidden = \<not> shouldShow,
      selectedPage = Finite 0,
      visible = (if shouldShow then 1 else 0),
      visible_animation = None,
      layout = \<lparr>height = 0, width = width dimensions\<rparr>\<rparr>"

section \<open>BottomTabBar: the visibility effect\<close>

text \<open>The callback of \<open>start\<close>, called with \<open>{ finished }\<close>.\<close>

definition run_callback :: "end_callback \<Rightarrow> bool \<Rightarrow> bar_state \<Rightarrow> bar_state" where
  "run_callback cb finished s =
     (case cb of
        NoCallback \<Rightarrow> s
      | ClearHiddenIfFinished \<Rightarrow> if finished then s\<lparr>isTabBarHidden := False\<rparr> else s)"

text \<open>
  The animation library, as it documents itself: \<open>stopAnimation\<close> stops the animation
  running on the value, which keeps its current number, and the callback of the stopped
  animation is called with \<open>finished: false\<close>; starting an animation on a value stops the
  one already running on it; an animation that reaches its end leaves the value at
  \<open>toValue\<close> and calls its callback with \<open>finished: true\<close>.
\<close>

definition stopAnimation :: "bar_state \<Rightarrow> bar_state" where
  "stopAnimation s =
     (case visible_animation s of
        None \<Rightarrow> s
      | Some a \<Rightarrow> run_callback (callback a) False (s\<lparr>visible_animation := None\<rparr>))"

definition start :: "running_animation \<Rightarrow> bar_state \<Rightarrow> bar_state" where
  "start a s = (stopAnimation s)\<lparr>visible_animation := Some a\<rparr>"

definition animation_end :: "bar_state \<Rightarrow> bar_state" where
  "animation_end s =
     (case visible_animation s of
        None \<Rightarrow> s
      | Some a \<Rightarrow>
          run_callback (callback a) True (s\<lparr>visible := toValue a, visible_animation := None\<rparr>))"

text \<open>\<open>visibilityAnimationConfig?.show?.animation === 'spring' ? Animated.spring : Animated.timing\<close>.\<close>

definition animation_of :: "animation_spec option \<Rightarrow> animation_kind" where
  "animation_of spec =
     (case spec of None \<Rightarrow> Timing | Some sp \<Rightarrow> if animation sp = Spring then Spring else Timing)"

text \<open>\<open>{ duration: d, ...spec?.config }\<close>: the duration of the config, when it has one, wins.\<close>

definition duration_of :: "real \<Rightarrow> animation_spec option \<Rightarrow> real" where
  "duration_of d spec =
     (case spec of
        None \<Rightarrow> d
      | Some sp \<Rightarrow>
         (case config sp of
            None \<Rightarrow> d
          | Some c \<Rightarrow> (case config_duration c of None \<Rightarrow> d | Some d' \<Rightarrow> d')))"

definition show_of :: "visibility_config option \<Rightarrow> animation_spec option" where
  "show_of visibilityAnimationConfig =
     (case visibilityAnimationConfig of None \<Rightarrow> None | Some c \<Rightarrow> show_spec c)"

definition hide_of :: "visibility_config option \<Rightarrow> animation_spec option" where
  "hide_of visibilityAnimationConfig =
     (case visibilityAnimationConfig of None \<Rightarrow> None | Some c \<Rightarrow> hide_spec c)"

text \<open>
  The body of the effect that depends on \<open>shouldShowTabBar\<close>; its argument
  \<open>visibilityAnimationConfig\<close> is what the ref holds when the effect runs.
\<close>

definition visibility_effect ::
  "Platform \<Rightarrow> visibility_config option \<Rightarrow> bool \<Rightarrow> bar_state \<Rightarrow> bar_state" where
  "visibility_effect platform visibilityAnimationConfig shouldShow s =
     (if shouldShow then
        start \<lparr>kind = animation_of (show_of visibilityAnimationConfig),
               toValue = 1,
               nativeDriver = useNativeDriver platform,
               duration = duration_of 250 (show_of visibilityAnimationConfig),
               callback = ClearHiddenIfFinished\<rparr> s
      else
        start \<lparr>kind = animation_of (hide_of visibilityAnimationConfig),
               toValue = 0,
               nativeDriver = useNativeDriver platform,
               duration = duration_of 200 (hide_of visibilityAnimationConfig),
               callback = NoCallback\<rparr> (s\<lparr>isTabBarHidden := True\<rparr>))"

text \<open>The cleanup the effect returns: \<open>() => visible.stopAnimation()\<close>.\<close>

definition visibility_cleanup :: "bar_state \<Rightarrow> bar_state" where
  "visibility_cleanup s = stopAnimation s"

text \<open>
  A change of \<open>shouldShowTabBar\<close> between two renders: the cleanup of the previous run of
  the effect, then the effect with the new value.
\<close>

definition shouldShow_changed ::
  "Platform \<Rightarrow> visibility_config option \<Rightarrow> bool \<Rightarrow> bar_state \<Rightarrow> bar_state" where
  "shouldShow_changed platform visibilityAnimationConfig shouldShow s =
     visibility_effect platform visibilityAnimationConfig shouldShow (visibility_cleanup s)"

text \<open>\<open>position: isTabBarHidden ? 'absolute' : null\<close>: out of the normal layout flow or in it.\<close>

definition out_of_layout_flow :: "bar_state \<Rightarrow> bool" where
  "out_of_layout_flow s \<longleftrightarrow> isTabBarHidden s"

section \<open>BottomTabBar: paging\<close>

text \<open>
  The handler the scroll view gets when \<open>pagingIcons\<close> is given. It answers the calls of
  state setters it makes: \<open>setSelectedPage(index)\<close> when \<open>index !== selectedPage\<close>, none
  otherwise.
\<close>

datatype state_update = SetSelectedPage jsnum

definition onMomentumScrollEnd :: "real \<Rightarrow> bar_state \<Rightarrow> state_update list" where
  "onMomentumScrollEnd contentOffset_x s =
     (let i = Math_round (js_divide contentOffset_x (width (layout s))) in
      if strict_not_equal i (selectedPage s) then [SetSelectedPage i] else [])"

fun apply_update :: "state_update \<Rightarrow> bar_state \<Rightarrow> bar_state" where
  "apply_update (SetSelectedPage i) s = s\<lparr>selectedPage := i\<rparr>"

text \<open>
  A scroll-settle event of the scroll view. The scroll view exists when scrolling is
  enabled; it has the handler above when \<open>pagingIcons\<close> is given, unless
  \<open>scrollViewProps\<close>, spread after it, brings an \<open>onMomentumScrollEnd\<close> of its own, which
  has no access to the state of the tab bar.
\<close>

definition momentum_scroll_end :: "bool \<Rightarrow> bool \<Rightarrow> bool \<Rightarrow> real \<Rightarrow> bar_state \<Rightarrow> bar_state" where
  "momentum_scroll_end scrollEnabled pagingIcons overridden contentOffset_x s =
     (if scrollEnabled \<and> pagingIcons \<and> \<not> overridden
      then fold apply_update (onMomentumScrollEnd contentOffset_x s) s
      else s)"

text \<open>
  Which of the two paging affordances a render shows, the right (next page) one first:
  \<open>selectedPage <= 1 && pages?.[selectedPage + 1]\<close> and \<open>selectedPage >= 1\<close>. A page, being
  an array, is truthy.
\<close>

definition rightIcon_shown :: "bool \<Rightarrow> jsnum \<Rightarrow> 'a list js_array \<Rightarrow> bool" where
  "rightIcon_shown scrollEnabled selected pgs \<longleftrightarrow>
     scrollEnabled \<and> js_le selected (Finite 1) \<and> js_at pgs (js_succ selected) \<noteq> None"

definition leftIcon_shown :: "bool \<Rightarrow> jsnum \<Rightarrow> bool" where
  "leftIcon_shown scrollEnabled selected \<longleftrightarrow> scrollEnabled \<and> js_ge selected (Finite 1)"

section \<open>BottomTabNavigator: the deprecated options\<close>

text \<open>The deprecated \<open>tabBarOptions\<close> bag, with the fields the navigator reads.\<close>

record tabBarOptions =
  keyboardHidesTabBar :: "bool option"
  activeTintColor :: "string option"
  inactiveTintColor :: "string option"
  activeBackgroundColor :: "string option"
  inactiveBackgroundColor :: "string option"
  allowFontScaling :: "bool option"
  showLabel :: "bool option"
  labelStyle :: "style option"
  iconStyle :: "style option"
  tabStyle :: "style option"
  labelPosition :: "label_position option"
  adaptive :: "bool option"
  tabBarVisible :: "bool option"

text \<open>
  The values of the normalized options object. A property can hold an explicit
  \<open>undefined\<close>, which is what the navigator deletes afterwards.
\<close>

datatype option_value =
  Undefined | Boolean bool | Text string | Position label_position | StyleValue style

definition or_undefined :: "('a \<Rightarrow> option_value) \<Rightarrow> 'a option \<Rightarrow> option_value" where
  "or_undefined wrap v = (case v of None \<Rightarrow> Undefined | Some x \<Rightarrow> wrap x)"

text \<open>An object is the list of its properties, in insertion order.\<close>

type_synonym js_object = "(string \<times> option_value) list"

definition Object_assign :: "js_object \<Rightarrow> js_object \<Rightarrow> js_object" where
  "Object_assign tgt source = foldl (\<lambda>obj (k, v). AList.update k v obj) tgt source"

text \<open>\<open>obj.tabBarStyle\<close> read as a style: a missing property is \<open>undefined\<close>.\<close>

definition style_property :: "js_object \<Rightarrow> string \<Rightarrow> style" where
  "style_property obj k = (case map_of obj k of Some (StyleValue st) \<Rightarrow> st | _ \<Rightarrow> StyleNull)"

text \<open>The loop over \<open>Object.keys\<close> that deletes every property holding \<open>undefined\<close>.\<close>

definition delete_undefined :: "js_object \<Rightarrow> js_object" where
  "delete_undefined obj = filter (\<lambda>(k, v). v \<noteq> Undefined) obj"

definition from_tabBarOptions :: "js_object \<Rightarrow> tabBarOptions \<Rightarrow> js_object" where
  "from_tabBarOptions defaultScreenOptions bag =
     [(''tabBarHideOnKeyboard'', or_undefined Boolean (keyboardHidesTabBar bag)),
      (''tabBarActiveTintColor'', or_undefined Text (activeTintColor bag)),
      (''tabBarInactiveTintColor'', or_undefined Text (inactiveTintColor bag)),
      (''tabBarActiveBackgroundColor'', or_undefined Text (activeBackgroundColor bag)),
      (''tabBarInactiveBackgroundColor'', or_undefined Text (inactiveBackgroundColor bag)),
      (''tabBarAllowFontScaling'', or_undefined Boolean (allowFontScaling bag)),
      (''tabBarShowLabel'', or_undefined Boolean (showLabel bag)),
      (''tabBarLabelStyle'', or_undefined StyleValue (labelStyle bag)),
      (''tabBarIconStyle'', or_undefined StyleValue (iconStyle bag)),
      (''tabBarItemStyle'', or_undefined StyleValue (tabStyle bag)),
      (''tabBarLabelPosition'',
         (case labelPosition bag of
            Some p \<Rightarrow> Position p
          | None \<Rightarrow> if adaptive bag = Some False then Position BelowIcon else Undefined)),
      (''tabBarStyle'',
         StyleValue (StyleArray
           [StyleObject
              [(''display'', Keyword (if tabBarVisible bag = Some True then ''none'' else ''flex''))],
            style_property defaultScreenOptions ''tabBarStyle'']))]"

text \<open>
  The \<open>defaultScreenOptions\<close> the navigator hands to the navigation builder, from the
  deprecated \<open>tabBarOptions\<close> and \<open>lazy\<close> props. The deprecation notices are not
  modelled, nor is the item width the navigator writes into \<open>screenOptions\<close> when
  \<open>itemCountByPage\<close> is given: neither touches \<open>defaultScreenOptions\<close>.
\<close>

definition defaultScreenOptions :: "tabBarOptions option \<Rightarrow> bool option \<Rightarrow> js_object" where
  "defaultScreenOptions bag lazy =
     (let d0 = [];
          d1 = (case bag of
                  None \<Rightarrow> d0
                | Some b \<Rightarrow> delete_undefined (Object_assign d0 (from_tabBarOptions d0 b)))
      in case lazy of None \<Rightarrow> d1 | Some l \<Rightarrow> AList.update ''lazy'' (Boolean l) d1)"

section \<open>Definitions used to state the properties\<close>

text \<open>
  Following the specification's words, the width a route is configured with: its
  explicit item width, else its explicit maximal width, else 125. Explicit means a number
  in the flattened item style of the route.
\<close>

definition spec_item_width :: "descriptors \<Rightarrow> route \<Rightarrow> real" where
  "spec_item_width descriptors r =
     (case descriptors (key r) of
        None \<Rightarrow> 0
      | Some d \<Rightarrow>
         (case flatten (tabBarItemStyle (options d)) of
            None \<Rightarrow> 125
          | Some f \<Rightarrow>
             (case f ''width'' of
                Some (Number w) \<Rightarrow> w
              | _ \<Rightarrow> (case f ''maxWidth'' of Some (Number m) \<Rightarrow> m | _ \<Rightarrow> 125))))"

text \<open>
  The sum of a list of numbers as JavaScript computes it: from 0, left to right, each
  number read as a double and each addition rounded.
\<close>

definition double_sum :: "real list \<Rightarrow> jsnum" where
  "double_sum ws = foldl (\<lambda>acc w. js_add acc (double w)) (Finite 0) ws"

text \<open>
  The shape of the chunks after \<open>n\<close> items went into chunks of size \<open>p\<close>: there are
  \<open>\<lceil>n / p\<rceil>\<close> of them, and chunk \<open>j\<close> holds \<open>min p (n - j * p)\<close> items.
\<close>

definition chunked :: "nat \<Rightarrow> nat \<Rightarrow> 'a list list \<Rightarrow> bool" where
  "chunked p n ps \<longleftrightarrow>
     length ps = (n + p - 1) div p \<and> (\<forall>j<length ps. length (ps ! j) = min p (n - j * p))"

subsection \<open>Example data\<close>

definition example_route :: "string \<Rightarrow> route" where
  "example_route k = \<lparr>key = k, name = k\<rparr>"

definition example_options :: "style \<Rightarrow> options" where
  "example_options itemStyle =
     \<lparr>tabBarLabelPosition = None, tabBarItemStyle = itemStyle, tabBarStyle = StyleNull,
      tabBarLabel = None, title = None, tabBarHideOnKeyboard = None,
      tabBarVisibilityAnimationConfig = None\<rparr>"

definition example_state :: nav_state where
  "example_state =
     \<lparr>state_key = ''tab-1'', index = 0,
      routes = [example_route ''a'', example_route ''b'', example_route ''c'']\<rparr>"

definition example_descriptors :: "style \<Rightarrow> descriptors" where
  "example_descriptors itemStyle =
     map_of [(''a'', \<lparr>options = example_options itemStyle\<rparr>),
             (''b'', \<lparr>options = example_options itemStyle\<rparr>),
             (''c'', \<lparr>options = example_options itemStyle\<rparr>)]"

definition example_bar :: bar_state where
  "example_bar =
     \<lparr>isTabBarHidden = False, selectedPage = Finite 0, visible = 1, visible_animation = None,
      layout = \<lparr>height = 49, width = 390\<rparr>\<rparr>"

definition hidden_bar :: bar_state where
  "hidden_bar =
     \<lparr>isTabBarHidden = True, selectedPage = Finite 0, visible = 0, visible_animation = None,
      layout = \<lparr>height = 49, width = 390\<rparr>\<rparr>"

definition legacy_bag :: tabBarOptions where
  "legacy_bag =
     \<lparr>keyboardHidesTabBar = None, activeTintColor = Some ''red'', inactiveTintColor = None,
      activeBackgroundColor = None, inactiveBackgroundColor = None, allowFontScaling = None,
      showLabel = None, labelStyle = None, iconStyle = None, tabStyle = None,
      labelPosition = None, adaptive = None, tabBarVisible = Some False\<rparr>"

definition three_routes :: "real \<Rightarrow> real \<Rightarrow> real \<Rightarrow> descriptors" where
  "three_routes a b c =
     map_of [(''a'', \<lparr>options = example_options (StyleObject [(''width'', Number a)])\<rparr>),
             (''b'', \<lparr>options = example_options (StyleObject [(''width'', Number b)])\<rparr>),
             (''c'', \<lparr>options = example_options (StyleObject [(''width'', Number c)])\<rparr>)]"

definition wide_bar :: "real \<Rightarrow> bar_state" where
  "wide_bar w =
     \<lparr>isTabBarHidden = False, selectedPage = Finite 0, visible = 1, visible_animation = None,
      layout = \<lparr>height = 49, width = w\<rparr>\<rparr>"

section \<open>Well-formed navigation data\<close>

lemma well_formed_focused:
  assumes "well_formed state descriptors"
  shows "\<exists>d. descriptors (key (routes state ! index state)) = Some d
           \<and> focused_options state descriptors = Inr (options d)"
proof -
  from assms have i: "index state < length (routes state)"
    and every: "list_all (\<lambda>r. descriptors (key r) \<noteq> None) (routes state)"
    by (simp_all add: well_formed_def)
  from every i have "descriptors (key (routes state ! index state)) \<noteq> None"
    by (simp add: list_all_length)
  then show ?thesis using i by (auto simp: focused_options_def descriptor_options_def)
qed

lemma example_well_formed: "well_formed example_state (example_descriptors itemStyle)"
  by (simp add: well_formed_def example_state_def example_descriptors_def example_route_def)

section \<open>Rounding to doubles\<close>

text \<open>
  The rounding at work: \<open>0.1\<close> is not a double, and \<open>0.1 + 0.2\<close> is the double
  \<open>0.30000000000000004\<close>; whole numbers of the size of a screen are doubles.
\<close>

lemma double_tenth: "double (1 / 10) = Finite (3602879701896397 / 2 ^ 55)"
  by (simp add: double_def binade_def pow2_def round_half_even_def Let_def)

lemma double_tenth_plus_fifth:
  "js_add (double (1 / 10)) (double (2 / 10)) = Finite (5404319552844596 / 2 ^ 54)"
  by (simp add: double_def binade_def pow2_def round_half_even_def Let_def)

lemma double_whole:
  "double 125 = Finite 125" "double 200 = Finite 200" "double 250 = Finite 250"
  "double 300 = Finite 300" "double 375 = Finite 375" "double 390 = Finite 390"
  "double 400 = Finite 400" "double 600 = Finite 600" "double 768 = Finite 768"
  "double 800 = Finite 800" "double 844 = Finite 844" "double 900 = Finite 900"
  "double 1024 = Finite 1024"
  by (simp_all add: double_def binade_def pow2_def round_half_even_def Let_def)

section \<open>Label orientation\<close>

lemma maxTabWidth_step_ok:
  "descriptors (key r) \<noteq> None \<Longrightarrow>
   maxTabWidth_step descriptors (Inr a) r i
     = Inr (js_add a (double (spec_item_width descriptors r)))"
  by (auto simp: maxTabWidth_step_def spec_item_width_def descriptor_options_def
        DEFAULT_MAX_TAB_ITEM_WIDTH_def split: option.splits style_value.splits)

lemma reduce_from_maxTabWidth:
  "list_all (\<lambda>r. descriptors (key r) \<noteq> None) rs \<Longrightarrow>
   reduce_from (maxTabWidth_step descriptors) (Inr a) i rs
     = Inr (foldl (\<lambda>acc w. js_add acc (double w)) a (map (spec_item_width descriptors) rs))"
proof (induction rs arbitrary: a i)
  case Nil
  then show ?case by simp
next
  case (Cons r rs)
  then show ?case by (simp add: maxTabWidth_step_ok)
qed

lemma well_formed_horizontal:
  assumes "well_formed state descriptors"
  shows "\<exists>b. shouldUseHorizontalLabels state descriptors lay dimensions = Inr b"
proof -
  from well_formed_focused[OF assms] obtain d where
    "descriptors (key (routes state ! index state)) = Some d"
    and f: "focused_options state descriptors = Inr (options d)" by blast
  from assms have every: "list_all (\<lambda>r. descriptors (key r) \<noteq> None) (routes state)"
    by (simp add: well_formed_def)
  show ?thesis
    by (auto simp: shouldUseHorizontalLabels_def f reduce_def reduce_from_maxTabWidth[OF every]
          split: option.splits label_position.splits)
qed

text \<open>
  Claim C5. On well-formed navigation data \<open>shouldUseHorizontalLabels\<close> returns, and its
  result is decided in this order: a label position set on the focused route wins
  (\<open>beside-icon\<close> gives true, \<open>below-icon\<close> gives false) whatever the widths are; without
  one, a container at least 768 wide gives true exactly when the configured item widths
  of all routes (the numeric \<open>width\<close> of the item style, else its numeric \<open>maxWidth\<close>,
  else 125) sum up to at most the container width; a narrower container gives true
  exactly when the device is wider than high. The numbers are doubles, and the sum is the
  one JavaScript computes: from 0, from the first route to the last, every addition
  rounded.
\<close>

theorem shouldUseHorizontalLabels_policy:
  assumes "well_formed state descriptors"
    and "descriptors (key (routes state ! index state)) = Some d"
  shows "shouldUseHorizontalLabels state descriptors lay dimensions =
     Inr (case tabBarLabelPosition (options d) of
            Some BesideIcon \<Rightarrow> True
          | Some BelowIcon \<Rightarrow> False
          | None \<Rightarrow>
              if js_ge (double (width lay)) (Finite 768)
              then js_le (double_sum (map (spec_item_width descriptors) (routes state)))
                     (double (width lay))
              else js_lt (double (height dimensions)) (double (width dimensions)))"
proof -
  from well_formed_focused[OF assms(1)] assms(2)
  have f: "focused_options state descriptors = Inr (options d)" by auto
  from assms(1) have every: "list_all (\<lambda>r. descriptors (key r) \<noteq> None) (routes state)"
    by (simp add: well_formed_def)
  have total: "reduce (maxTabWidth_step descriptors) (Inr (Finite 0)) (routes state)
                 = Inr (double_sum (map (spec_item_width descriptors) (routes state)))"
    by (simp add: reduce_def reduce_from_maxTabWidth[OF every] double_sum_def)
  show ?thesis
  proof (cases "tabBarLabelPosition (options d)")
    case None
    then show ?thesis by (simp add: shouldUseHorizontalLabels_def f total)
  next
    case (Some position)
    then show ?thesis by (cases position) (simp_all add: shouldUseHorizontalLabels_def f)
  qed
qed

lemma example_widths:
  "map (spec_item_width (example_descriptors (StyleObject [(''width'', Number w)])))
     (routes example_state) = [w, w, w]"
  by (simp add: example_options_def spec_item_width_def example_state_def
        example_descriptors_def example_route_def)

lemma example_focused:
  "example_descriptors itemStyle (key (routes example_state ! index example_state))
     = Some \<lparr>options = example_options itemStyle\<rparr>"
  by (simp add: example_state_def example_descriptors_def example_route_def)

theorem shouldUseHorizontalLabels_policy_witness:
  "well_formed example_state (example_descriptors (StyleObject [(''width'', Number 200)]))
   \<and> example_descriptors (StyleObject [(''width'', Number 200)])
        (key (routes example_state ! index example_state))
      = Some \<lparr>options = example_options (StyleObject [(''width'', Number 200)])\<rparr>
   \<and> double_sum [200, 200, 200] = Finite 600
   \<and> shouldUseHorizontalLabels example_state
        (example_descriptors (StyleObject [(''width'', Number 200)]))
        \<lparr>height = 49, width = 768\<rparr> \<lparr>height = 1024, width = 768\<rparr> = Inr True"
proof -
  let ?ds = "example_descriptors (StyleObject [(''width'', Number 200)])"
  have p: "tabBarLabelPosition (example_options (StyleObject [(''width'', Number 200)])) = None"
    by (simp add: example_options_def)
  have w: "double_sum [200, 200, 200] = Finite 600"
    by (simp add: double_sum_def double_whole)
  have "shouldUseHorizontalLabels example_state ?ds
          \<lparr>height = 49, width = 768\<rparr> \<lparr>height = 1024, width = 768\<rparr> = Inr True"
    using shouldUseHorizontalLabels_policy[OF example_well_formed example_focused,
        of "StyleObject [(''width'', Number 200)]"
           "\<lparr>height = 49, width = 768\<rparr>" "\<lparr>height = 1024, width = 768\<rparr>"]
    by (simp add: p w example_widths double_whole js_ge_def)
  with w example_focused example_well_formed show ?thesis by blast
qed

text \<open>The second half of the specification's tablet example: three items of width 300.\<close>

lemma tablet_example_too_wide:
  "shouldUseHorizontalLabels example_state
     (example_descriptors (StyleObject [(''width'', Number 300)]))
     \<lparr>height = 49, width = 768\<rparr> \<lparr>height = 1024, width = 768\<rparr> = Inr False"
  by (simp add: shouldUseHorizontalLabels_def focused_options_def descriptor_options_def
        example_state_def example_descriptors_def example_route_def example_options_def
        reduce_def maxTabWidth_step_def double_whole js_ge_def)

text \<open>
  Where the rounding decides. The item widths \<open>758.6\<close>, \<open>4.7\<close> and \<open>4.7\<close> add up to 768
  as reals, but the sum the code computes is the next double above 768, and the labels
  of a container 768 wide are not horizontal. The item widths \<open>104.5\<close>, \<open>48.3\<close> and
  \<open>615.2\<close> are read as doubles whose exact sum is above 768, but the sum the code
  computes is the double 768, and the labels are horizontal.
\<close>

lemma double_sum_above_768:
  "double_sum [758.6, 4.7, 4.7] = Finite (768 + 1 / 2 ^ 43)"
  by (simp add: double_sum_def double_def binade_def pow2_def round_half_even_def Let_def)

lemma double_sum_exactly_768:
  "double_sum [104.5, 48.3, 615.2] = Finite 768"
  by (simp add: double_sum_def double_def binade_def pow2_def round_half_even_def Let_def)

lemma three_routes_well_formed: "well_formed example_state (three_routes a b c)"
  by (simp add: well_formed_def example_state_def three_routes_def example_route_def)

lemma three_routes_widths:
  "map (spec_item_width (three_routes a b c)) (routes example_state) = [a, b, c]"
  by (simp add: example_options_def spec_item_width_def example_state_def
        three_routes_def example_route_def)

lemma three_routes_run:
  "shouldUseHorizontalLabels example_state (three_routes a b c)
     \<lparr>height = 49, width = 768\<rparr> \<lparr>height = 1024, width = 768\<rparr>
     = Inr (js_le (double_sum [a, b, c]) (Finite 768))"
  by (simp add: shouldUseHorizontalLabels_def focused_options_def descriptor_options_def
        example_state_def three_routes_def example_route_def example_options_def
        reduce_def maxTabWidth_step_def double_whole js_ge_def double_sum_def)

lemma rounding_up_past_768:
  "shouldUseHorizontalLabels example_state (three_routes 758.6 4.7 4.7)
     \<lparr>height = 49, width = 768\<rparr> \<lparr>height = 1024, width = 768\<rparr> = Inr False"
  unfolding three_routes_run double_sum_above_768 by simp

lemma rounding_down_to_768:
  "shouldUseHorizontalLabels example_state (three_routes 104.5 48.3 615.2)
     \<lparr>height = 49, width = 768\<rparr> \<lparr>height = 1024, width = 768\<rparr> = Inr True"
  unfolding three_routes_run double_sum_exactly_768 by simp


section \<open>Tab bar height\<close>

lemma example_horizontal:
  "shouldUseHorizontalLabels example_state (example_descriptors StyleNull)
     \<lparr>height = 32, width = 844\<rparr> \<lparr>height = 390, width = 844\<rparr> = Inr True"
  by (simp add: shouldUseHorizontalLabels_def focused_options_def descriptor_options_def
        example_state_def example_descriptors_def example_route_def example_options_def
        reduce_def maxTabWidth_step_def DEFAULT_MAX_TAB_ITEM_WIDTH_def double_whole js_ge_def)

text \<open>
  Claim C4. When the flattened style has a number as its height, \<open>getTabBarHeight\<close>
  returns that number, whatever the other arguments are. Otherwise, on well-formed
  navigation data, it returns 32 plus the padding when the platform is iOS and not an
  iPad, the dimensions are wider than high and the labels are horizontal, and 49 plus the
  padding in every other case; the padding is the bottom inset minus the platform offset
  (4 on iOS, 0 elsewhere), or 0 when that is negative.
\<close>

theorem getTabBarHeight_policy:
  "(\<forall>h. customHeight st = Some (Number h) \<longrightarrow>
       getTabBarHeight platform state descriptors lay dimensions insets st = Inr h)
   \<and> (well_formed state descriptors \<longrightarrow> (\<forall>h. customHeight st \<noteq> Some (Number h)) \<longrightarrow>
       (\<exists>horizontalLabels.
          shouldUseHorizontalLabels state descriptors lay dimensions = Inr horizontalLabels
          \<and> getTabBarHeight platform state descriptors lay dimensions insets st =
              Inr ((if OS platform = Ios \<and> \<not> isPad platform
                       \<and> height dimensions < width dimensions \<and> horizontalLabels
                    then 32 else 49)
                   + max (bottom insets - (if OS platform = Ios then 4 else 0)) 0)))"
proof (intro conjI allI impI)
  fix h assume "customHeight st = Some (Number h)"
  then show "getTabBarHeight platform state descriptors lay dimensions insets st = Inr h"
    by (simp add: getTabBarHeight_def)
next
  assume wf: "well_formed state descriptors" and no: "\<forall>h. customHeight st \<noteq> Some (Number h)"
  from well_formed_horizontal[OF wf] obtain b where
    b: "shouldUseHorizontalLabels state descriptors lay dimensions = Inr b" by blast
  have "getTabBarHeight platform state descriptors lay dimensions insets st =
          Inr ((if OS platform = Ios \<and> \<not> isPad platform
                   \<and> height dimensions < width dimensions \<and> b
                then 32 else 49)
               + max (bottom insets - (if OS platform = Ios then 4 else 0)) 0)"
    using no b
    by (auto simp: getTabBarHeight_def getPaddingBottom_def Platform_select_def
          COMPACT_TABBAR_HEIGHT_def DEFAULT_TABBAR_HEIGHT_def Let_def
          split: option.splits style_value.splits)
  with b show "\<exists>horizontalLabels.
          shouldUseHorizontalLabels state descriptors lay dimensions = Inr horizontalLabels
          \<and> getTabBarHeight platform state descriptors lay dimensions insets st =
              Inr ((if OS platform = Ios \<and> \<not> isPad platform
                       \<and> height dimensions < width dimensions \<and> horizontalLabels
                    then 32 else 49)
                   + max (bottom insets - (if OS platform = Ios then 4 else 0)) 0)"
    by blast
qed

theorem getTabBarHeight_policy_witness:
  "customHeight (StyleArray [StyleNull, StyleObject [(''height'', Number 60)]]) = Some (Number 60)
   \<and> getTabBarHeight \<lparr>OS = Android, isPad = False\<rparr> example_state Map.empty
        \<lparr>height = 0, width = 0\<rparr> \<lparr>height = 800, width = 400\<rparr> \<lparr>bottom = 0\<rparr>
        (StyleArray [StyleNull, StyleObject [(''height'', Number 60)]]) = Inr 60
   \<and> well_formed example_state (example_descriptors StyleNull)
   \<and> (\<forall>h. customHeight StyleNull \<noteq> Some (Number h))
   \<and> getTabBarHeight \<lparr>OS = Ios, isPad = False\<rparr> example_state (example_descriptors StyleNull)
        \<lparr>height = 32, width = 844\<rparr> \<lparr>height = 390, width = 844\<rparr> \<lparr>bottom = 24\<rparr>
        StyleNull = Inr 52"
proof -
  let ?st = "StyleArray [StyleNull, StyleObject [(''height'', Number 60)]]"
  have c: "customHeight ?st = Some (Number 60)"
    by (simp add: customHeight_def)
  have n: "\<forall>h. customHeight StyleNull \<noteq> Some (Number h)"
    by (simp add: customHeight_def)
  note a = getTabBarHeight_policy[of ?st "\<lparr>OS = Android, isPad = False\<rparr>" example_state Map.empty
        "\<lparr>height = 0, width = 0\<rparr>" "\<lparr>height = 800, width = 400\<rparr>" "\<lparr>bottom = 0\<rparr>",
        THEN conjunct1, rule_format, OF c]
  note b = getTabBarHeight_policy[of StyleNull "\<lparr>OS = Ios, isPad = False\<rparr>" example_state
        "example_descriptors StyleNull"
        "\<lparr>height = 32, width = 844\<rparr>" "\<lparr>height = 390, width = 844\<rparr>" "\<lparr>bottom = 24\<rparr>",
        THEN conjunct2, rule_format, OF example_well_formed]
  have "getTabBarHeight \<lparr>OS = Ios, isPad = False\<rparr> example_state (example_descriptors StyleNull)
        \<lparr>height = 32, width = 844\<rparr> \<lparr>height = 390, width = 844\<rparr> \<lparr>bottom = 24\<rparr>
        StyleNull = Inr 52"
    using b n by (auto simp: example_horizontal)
  with a c n example_well_formed show ?thesis by blast
qed

section \<open>Chunking the routes into pages\<close>

lemma floor_idx: "0 < p \<Longrightarrow> nat \<lfloor>real n / real p\<rfloor> = n div p"
  by (simp add: floor_divide_of_nat_eq)

lemma ceil_div_0:
  fixes p :: nat
  assumes "0 < p" and "n mod p = 0"
  shows "(n + p - 1) div p = n div p"
proof -
  obtain k where n: "n = p * k" using assms(2) by (auto simp: mod_eq_0_iff_dvd)
  have "p * k \<le> n + p - 1" using n assms(1) by simp
  moreover have "n + p - 1 < p * Suc k" using n assms(1) by simp
  ultimately have "(n + p - 1) div p = k" by (rule div_nat_eqI)
  moreover have "n div p = k" using n assms(1) by simp
  ultimately show ?thesis by simp
qed

lemma ceil_div_1:
  fixes p :: nat
  assumes "0 < p" and "n mod p \<noteq> 0"
  shows "(n + p - 1) div p = Suc (n div p)"
proof -
  define k where "k = n div p"
  define r where "r = n mod p"
  have n: "n = p * k + r" by (simp add: k_def r_def)
  have r: "0 < r" "r < p" using assms by (simp_all add: r_def)
  have "p * Suc k \<le> n + p - 1" using n r by simp
  moreover have "n + p - 1 < p * Suc (Suc k)" using n r by simp
  ultimately have "(n + p - 1) div p = Suc k" by (rule div_nat_eqI)
  then show ?thesis by (simp add: k_def)
qed

lemma ceiling_div_nat:
  fixes p :: nat
  assumes "0 < p"
  shows "\<lceil>real n / real p\<rceil> = int ((n + p - 1) div p)"
proof -
  define k where "k = n div p"
  define r where "r = n mod p"
  have n: "n = k * p + r" by (simp add: k_def r_def)
  have r: "r < p" using assms by (simp add: r_def)
  have q: "real n / real p = real k + real r / real p"
    using assms by (simp add: n field_simps)
  show ?thesis
  proof (cases "r = 0")
    case True
    then have "(n + p - 1) div p = k"
      using ceil_div_0[OF assms, of n] by (simp add: k_def r_def)
    then show ?thesis using q True by simp
  next
    case False
    then have d: "(n + p - 1) div p = Suc k"
      using ceil_div_1[OF assms, of n] by (simp add: k_def r_def)
    have "real k < real n / real p" using q False assms by simp
    moreover have "real n / real p \<le> real k + 1" using q r assms by (simp add: field_simps)
    ultimately have "\<lceil>real n / real p\<rceil> = int k + 1" by linarith
    then show ?thesis using d by simp
  qed
qed

lemma concat_upd_last:
  assumes "ps \<noteq> []"
  shows "concat (ps[length ps - 1 := ps ! (length ps - 1) @ [x]]) = concat ps @ [x]"
proof -
  obtain qs q where ps: "ps = qs @ [q]" using assms by (metis rev_exhaust)
  show ?thesis by (simp add: ps)
qed

lemma chunk_step_chunked:
  fixes p :: nat
  assumes p: "0 < p" and inv: "chunked p n ps"
  shows "\<exists>ps'. chunk_step (real p) (map Some ps) x n = map Some ps' \<and> chunked p (Suc n) ps'
           \<and> concat ps' = concat ps @ [x]"
proof -
  define k where "k = n div p"
  define r where "r = n mod p"
  have n: "n = p * k + r" by (simp add: k_def r_def)
  have r: "r < p" using p by (simp add: r_def)
  have lens: "\<And>j. j < length ps \<Longrightarrow> length (ps ! j) = min p (n - j * p)"
    using inv by (simp add: chunked_def)
  show ?thesis
  proof (cases "r = 0")
    case True
    then have nk: "n = p * k" using n by simp
    have len: "length ps = k"
      using inv ceil_div_0[OF p, of n] True by (simp add: chunked_def k_def r_def)
    have step: "chunk_step (real p) (map Some ps) x n = map Some (ps @ [[x]])"
      using p len by (simp add: chunk_step_def floor_idx js_get_def js_set_def k_def)
    have len': "length (ps @ [[x]]) = (Suc n + p - 1) div p"
      using p len nk by simp
    have each: "length ((ps @ [[x]]) ! j) = min p (Suc n - j * p)" if "j < length (ps @ [[x]])" for j
    proof (cases "j < k")
      case True
      then have "Suc j \<le> k" by simp
      then have "p * Suc j \<le> p * k" using mult_le_mono2 by blast
      then have "p \<le> n - j * p" using nk by (simp add: mult.commute)
      then show ?thesis using True len lens[of j] by (simp add: nth_append)
    next
      case False
      then have "j = k" using that len by simp
      then show ?thesis using len nk p by (simp add: nth_append mult.commute)
    qed
    have "chunked p (Suc n) (ps @ [[x]])"
      unfolding chunked_def using len' each by blast
    with step show ?thesis by (intro exI[of _ "ps @ [[x]]"]) simp
  next
    case False
    then have r0: "0 < r" by simp
    have len: "length ps = Suc k"
      using inv ceil_div_1[OF p, of n] False by (simp add: chunked_def k_def r_def)
    let ?ps' = "ps[k := ps ! k @ [x]]"
    have step: "chunk_step (real p) (map Some ps) x n = map Some ?ps'"
      using p len
      by (simp add: chunk_step_def floor_idx js_get_def js_set_def k_def map_update Let_def)
    have "(Suc n + p - 1) div p = Suc k"
    proof (rule div_nat_eqI)
      show "p * Suc k \<le> Suc n + p - 1" using n r0 by simp
      show "Suc n + p - 1 < p * Suc (Suc k)" using n r by simp
    qed
    then have len': "length ?ps' = (Suc n + p - 1) div p" using len by simp
    have each: "length (?ps' ! j) = min p (Suc n - j * p)" if "j < length ?ps'" for j
    proof (cases "j < k")
      case True
      then have "Suc j \<le> k" by simp
      then have "p * Suc j \<le> p * k" using mult_le_mono2 by blast
      then have "p \<le> n - j * p" using n by (simp add: mult.commute)
      then show ?thesis using True len lens[of j] by simp
    next
      case False
      then have jk: "j = k" using that len by simp
      have "length (ps ! k) = r" using lens[of k] len n r by (simp add: mult.commute)
      then show ?thesis using jk len n r by (simp add: mult.commute)
    qed
    have inv': "chunked p (Suc n) ?ps'"
      unfolding chunked_def using len' each by blast
    have "ps \<noteq> []" using len by auto
    from concat_upd_last[OF this, of x] have "concat ?ps' = concat ps @ [x]"
      using len by simp
    with step inv' show ?thesis by (intro exI[of _ ?ps']) simp
  qed
qed

lemma reduce_from_chunked:
  fixes p :: nat
  assumes p: "0 < p"
  shows "chunked p n ps \<Longrightarrow>
    \<exists>ps'. reduce_from (chunk_step (real p)) (map Some ps) n xs = map Some ps'
      \<and> chunked p (n + length xs) ps' \<and> concat ps' = concat ps @ xs"
proof (induction xs arbitrary: n ps)
  case Nil
  then show ?case by auto
next
  case (Cons x xs)
  from chunk_step_chunked[OF p Cons.prems, of x] obtain ps1 where
    s: "chunk_step (real p) (map Some ps) x n = map Some ps1" and
    i: "chunked p (Suc n) ps1" and c: "concat ps1 = concat ps @ [x]" by blast
  from Cons.IH[OF i] obtain ps' where
    "reduce_from (chunk_step (real p)) (map Some ps1) (Suc n) xs = map Some ps'"
    "chunked p (Suc n + length xs) ps'" "concat ps' = concat ps1 @ xs" by blast
  with s c show ?case by (intro exI[of _ ps']) simp
qed

lemma chunkArray_chunked:
  fixes p :: nat
  assumes p: "0 < p"
  shows "\<exists>ps. chunkArray R (real p) = Some (map Some ps) \<and> chunked p (length R) ps \<and> concat ps = R"
proof -
  have "chunked p 0 []" using p by (simp add: chunked_def)
  from reduce_from_chunked[OF p this, of R] obtain ps where
    "reduce_from (chunk_step (real p)) [] 0 R = map Some ps"
    "chunked p (length R) ps" "concat ps = R" by auto
  then show ?thesis using p by (intro exI[of _ ps]) (auto simp: chunkArray_def reduce_def chunked_def)
qed

lemma chunked_full:
  fixes p :: nat
  assumes p: "0 < p" and c: "chunked p n ps" and j: "Suc j < length ps"
  shows "length (ps ! j) = p"
proof -
  from c j have "Suc (Suc j) \<le> (n + p - 1) div p" by (simp add: chunked_def)
  then have "Suc (Suc j) * p \<le> n + p - 1" using p by (simp add: less_eq_div_iff_mult_less_eq)
  then have "p \<le> n - j * p" by simp
  moreover from c j have "length (ps ! j) = min p (n - j * p)" by (simp add: chunked_def)
  ultimately show ?thesis by simp
qed

lemma chunked_last:
  fixes p :: nat
  assumes p: "0 < p" and c: "chunked p n ps" and ne: "ps \<noteq> []"
  shows "1 \<le> length (last ps) \<and> length (last ps) \<le> p"
proof -
  define j where "j = length ps - 1"
  from ne have j: "j < length ps" by (simp add: j_def)
  from c j have "Suc j \<le> (n + p - 1) div p" by (simp add: chunked_def)
  then have "Suc j * p \<le> n + p - 1" using p by (simp add: less_eq_div_iff_mult_less_eq)
  then have "1 \<le> n - j * p" using p by simp
  moreover from c j have "length (ps ! j) = min p (n - j * p)" by (simp add: chunked_def)
  moreover have "last ps = ps ! j" using ne by (simp add: j_def last_conv_nth)
  ultimately show ?thesis using p by simp
qed

text \<open>
  Claim C6. With scrolling enabled and a whole page size \<open>p \<ge> 1\<close>, the pages of a route
  list \<open>R\<close> are \<open>\<lceil>length R / p\<rceil>\<close> chunks without holes, every chunk but the last
  has \<open>p\<close> routes, the last one has between 1 and \<open>p\<close>, and the chunks concatenated in
  order give \<open>R\<close> back. With scrolling disabled the list of pages is empty.
\<close>

theorem chunkArray_pages:
  fixes p :: nat
  assumes "1 \<le> p"
  shows "(\<exists>ps. pages True R (Some (real p)) = Some (map Some ps)
            \<and> int (length ps) = \<lceil>real (length R) / real p\<rceil>
            \<and> (\<forall>j. Suc j < length ps \<longrightarrow> length (ps ! j) = p)
            \<and> (ps \<noteq> [] \<longrightarrow> 1 \<le> length (last ps) \<and> length (last ps) \<le> p)
            \<and> concat ps = R)
         \<and> pages False R tabCountPerPage = Some []"
proof -
  from assms have p: "0 < p" by simp
  from chunkArray_chunked[OF p, of R] obtain ps where
    a: "chunkArray R (real p) = Some (map Some ps)" and c: "chunked p (length R) ps"
    and r: "concat ps = R" by blast
  have "pages True R (Some (real p)) = Some (map Some ps)"
    using a by (simp add: pages_def tabCountPerPage_default_def)
  moreover have "int (length ps) = \<lceil>real (length R) / real p\<rceil>"
    using c ceiling_div_nat[OF p, of "length R"] by (simp add: chunked_def)
  moreover have "\<forall>j. Suc j < length ps \<longrightarrow> length (ps ! j) = p"
    using chunked_full[OF p c] by blast
  moreover have "ps \<noteq> [] \<longrightarrow> 1 \<le> length (last ps) \<and> length (last ps) \<le> p"
    using chunked_last[OF p c] by blast
  moreover have "pages False R tabCountPerPage = Some []"
    by (simp add: pages_def)
  ultimately show ?thesis using r by blast
qed

theorem chunkArray_pages_witness:
  "(1::nat) \<le> 3
   \<and> pages True [1, 2, 3, 4, 5, 6, 7 :: nat] (Some (real (3::nat)))
       = Some [Some [1, 2, 3], Some [4, 5, 6], Some [7]]
   \<and> (\<exists>ps. pages True [1, 2, 3, 4, 5, 6, 7 :: nat] (Some (real (3::nat))) = Some (map Some ps)
         \<and> int (length ps) = 3
         \<and> (\<forall>j. Suc j < length ps \<longrightarrow> length (ps ! j) = 3)
         \<and> concat ps = [1, 2, 3, 4, 5, 6, 7])
   \<and> pages False [1, 2, 3, 4, 5, 6, 7 :: nat] None = Some []"
proof -
  have h: "(1::nat) \<le> 3" by simp
  have e: "pages True [1, 2, 3, 4, 5, 6, 7 :: nat] (Some (real (3::nat)))
       = Some [Some [1, 2, 3], Some [4, 5, 6], Some [7]]"
    by (simp add: pages_def tabCountPerPage_default_def chunkArray_def reduce_def chunk_step_def
          js_get_def js_set_def)
  have c: "\<lceil>real (length [1, 2, 3, 4, 5, 6, 7 :: nat]) / real (3::nat)\<rceil> = 3"
    by simp
  from chunkArray_pages[OF h, of "[1, 2, 3, 4, 5, 6, 7 :: nat]" None]
  have "(\<exists>ps. pages True [1, 2, 3, 4, 5, 6, 7 :: nat] (Some (real (3::nat))) = Some (map Some ps)
         \<and> int (length ps) = 3
         \<and> (\<forall>j. Suc j < length ps \<longrightarrow> length (ps ! j) = 3)
         \<and> concat ps = [1, 2, 3, 4, 5, 6, 7])
     \<and> pages False [1, 2, 3, 4, 5, 6, 7 :: nat] None = Some []"
    unfolding c by blast
  with h e show ?thesis by blast
qed

text \<open>
  A chunk size that is not a whole number is not a page size in the sense of claim C6;
  the chunks then alternate in length.
\<close>

lemma chunkArray_fractional_size:
  "chunkArray [1, 2, 3, 4, 5 :: nat] (5 / 2) = Some [Some [1, 2, 3], Some [4, 5]]"
  by (simp add: chunkArray_def reduce_def chunk_step_def js_get_def js_set_def)

section \<open>Paging\<close>

lemma js_divide_finite:
  "js_divide x w = Finite q \<Longrightarrow> Math_round (js_divide x w) = Finite (of_int (round q))"
  by simp

lemma momentum_scroll_end_idem:
  "momentum_scroll_end e g ov x (momentum_scroll_end e g ov x s) = momentum_scroll_end e g ov x s"
  by (simp add: momentum_scroll_end_def onMomentumScrollEnd_def Let_def)

text \<open>
  Claim C7. A scroll-settle event leaves the state as it is or sets the selected page to
  \<open>Math.round(contentOffset.x / layout.width)\<close>, and it sets it only when that index
  differs from the selected page; handling the same event again changes nothing. When the
  quotient, the double that the division gives, is a finite number \<open>q\<close>, the index is the
  whole number \<open>round q\<close>, the handler calls \<open>setSelectedPage\<close> exactly when the index is
  not the selected page, and after one event a repeated event with the same offset calls
  no state setter at all.
\<close>

theorem selectedPage_update:
  "(momentum_scroll_end scrollEnabled pagingIcons overridden x s = s
      \<or> (momentum_scroll_end scrollEnabled pagingIcons overridden x s
            = s\<lparr>selectedPage := Math_round (js_divide x (width (layout s)))\<rparr>
         \<and> strict_not_equal (Math_round (js_divide x (width (layout s)))) (selectedPage s)))
   \<and> momentum_scroll_end scrollEnabled pagingIcons overridden x
        (momentum_scroll_end scrollEnabled pagingIcons overridden x s)
      = momentum_scroll_end scrollEnabled pagingIcons overridden x s
   \<and> (\<forall>q. js_divide x (width (layout s)) = Finite q \<longrightarrow>
        onMomentumScrollEnd x s =
          (if Finite (of_int (round q)) = selectedPage s then []
           else [SetSelectedPage (Finite (of_int (round q)))])
        \<and> onMomentumScrollEnd x (momentum_scroll_end True True False x s) = [])"
proof (intro conjI allI impI)
  show "momentum_scroll_end scrollEnabled pagingIcons overridden x s = s
      \<or> (momentum_scroll_end scrollEnabled pagingIcons overridden x s
            = s\<lparr>selectedPage := Math_round (js_divide x (width (layout s)))\<rparr>
         \<and> strict_not_equal (Math_round (js_divide x (width (layout s)))) (selectedPage s))"
    by (simp add: momentum_scroll_end_def onMomentumScrollEnd_def Let_def)
  show "momentum_scroll_end scrollEnabled pagingIcons overridden x
        (momentum_scroll_end scrollEnabled pagingIcons overridden x s)
      = momentum_scroll_end scrollEnabled pagingIcons overridden x s"
    by (rule momentum_scroll_end_idem)
next
  fix q assume q: "js_divide x (width (layout s)) = Finite q"
  show "onMomentumScrollEnd x s =
          (if Finite (of_int (round q)) = selectedPage s then []
           else [SetSelectedPage (Finite (of_int (round q)))])"
    by (auto simp: onMomentumScrollEnd_def q strict_not_equal_def Let_def)
  show "onMomentumScrollEnd x (momentum_scroll_end True True False x s) = []"
    by (simp add: momentum_scroll_end_def onMomentumScrollEnd_def q strict_not_equal_def Let_def)
qed

lemma quotient_400_390: "js_divide 400 390 = Finite (4619076540892816 / 2 ^ 52)"
  by (simp add: js_divide_def double_def binade_def pow2_def round_half_even_def Let_def)

theorem selectedPage_update_witness:
  "js_divide 400 (width (layout example_bar)) = Finite (4619076540892816 / 2 ^ 52)
   \<and> onMomentumScrollEnd 400 example_bar = [SetSelectedPage (Finite 1)]
   \<and> onMomentumScrollEnd 400 (momentum_scroll_end True True False 400 example_bar) = []"
proof -
  have w: "width (layout example_bar) = 390" by (simp add: example_bar_def)
  have q: "js_divide 400 (width (layout example_bar)) = Finite (4619076540892816 / 2 ^ 52)"
    unfolding w by (rule quotient_400_390)
  have r: "round (4619076540892816 / 2 ^ 52 :: real) = 1"
    by (simp add: round_def)
  have p: "selectedPage example_bar = Finite 0" by (simp add: example_bar_def)
  from selectedPage_update[of True True False 400 example_bar] q
  have "onMomentumScrollEnd 400 example_bar =
          (if Finite (of_int (round (4619076540892816 / 2 ^ 52 :: real))) = selectedPage example_bar
           then []
           else [SetSelectedPage (Finite (of_int (round (4619076540892816 / 2 ^ 52 :: real))))])"
    and e: "onMomentumScrollEnd 400 (momentum_scroll_end True True False 400 example_bar) = []"
    by blast+
  then have "onMomentumScrollEnd 400 example_bar = [SetSelectedPage (Finite 1)]"
    unfolding r p by simp
  with q e show ?thesis by blast
qed

text \<open>
  Where the rounding decides. The quotient of \<open>800\<close> by \<open>533.3333333333334\<close> is below
  one and a half as a real and the double \<open>1.5\<close> in the code: the page is 2. The quotient
  of \<open>450.15\<close> by \<open>300.1\<close> is one and a half for the decimals and the double just below
  \<open>1.5\<close> in the code: the page is 1.
\<close>

lemma quotient_rounds_to_half: "js_divide 800 533.3333333333334 = Finite (3 / 2)"
  by (simp add: js_divide_def double_def binade_def pow2_def round_half_even_def Let_def)

lemma quotient_rounds_below_half: "js_divide 450.15 300.1 = Finite (3 / 2 - 1 / 2 ^ 52)"
  by (simp add: js_divide_def double_def binade_def pow2_def round_half_even_def Let_def)

lemma onMomentumScrollEnd_value:
  assumes "js_divide x (width (layout s)) = Finite q"
  shows "onMomentumScrollEnd x s =
          (if Finite (of_int (round q)) = selectedPage s then []
           else [SetSelectedPage (Finite (of_int (round q)))])"
  using assms by (auto simp: onMomentumScrollEnd_def strict_not_equal_def Let_def)

lemma page_after_rounding_up:
  "onMomentumScrollEnd 800 (wide_bar 533.3333333333334) = [SetSelectedPage (Finite 2)]"
proof -
  have w: "width (layout (wide_bar 533.3333333333334)) = 533.3333333333334"
    unfolding wide_bar_def by simp
  have q: "js_divide 800 (width (layout (wide_bar 533.3333333333334))) = Finite (3 / 2)"
    unfolding w by (rule quotient_rounds_to_half)
  have r: "round (3 / 2 :: real) = 2" by (simp add: round_def)
  have p: "selectedPage (wide_bar 533.3333333333334) = Finite 0" by (simp add: wide_bar_def)
  show ?thesis unfolding onMomentumScrollEnd_value[OF q] r p by simp
qed

lemma page_after_rounding_down:
  "onMomentumScrollEnd 450.15 (wide_bar 300.1) = [SetSelectedPage (Finite 1)]"
proof -
  have w: "width (layout (wide_bar 300.1)) = 300.1"
    unfolding wide_bar_def by simp
  have q: "js_divide 450.15 (width (layout (wide_bar 300.1))) = Finite (3 / 2 - 1 / 2 ^ 52)"
    unfolding w by (rule quotient_rounds_below_half)
  have r: "round (3 / 2 - 1 / 2 ^ 52 :: real) = 1" by (simp add: round_def)
  have p: "selectedPage (wide_bar 300.1) = Finite 0" by (simp add: wide_bar_def)
  show ?thesis unfolding onMomentumScrollEnd_value[OF q] r p by simp
qed

lemma js_at_int:
  "js_at (map Some ps) (Finite (of_int n)) = (if 0 \<le> n \<and> nat n < length ps then Some (ps ! nat n) else None)"
  by (simp add: js_get_def)

text \<open>
  Claim C8. In a render with scrolling enabled, with a whole number \<open>n\<close> as the selected
  page and pages without holes, the next-page affordance is shown exactly when \<open>n \<le> 1\<close>
  and page \<open>n + 1\<close> exists, and the previous-page affordance is shown exactly when
  \<open>n \<ge> 1\<close>.
\<close>

theorem paging_indicators:
  "(rightIcon_shown True (Finite (of_int n)) (map Some ps) \<longleftrightarrow>
      n \<le> 1 \<and> 0 \<le> n + 1 \<and> nat (n + 1) < length ps)
   \<and> (leftIcon_shown True (Finite (of_int n)) \<longleftrightarrow> 1 \<le> n)"
proof
  have s: "js_succ (Finite (of_int n)) = Finite (of_int (n + 1))" by simp
  show "rightIcon_shown True (Finite (of_int n)) (map Some ps) \<longleftrightarrow>
          n \<le> 1 \<and> 0 \<le> n + 1 \<and> nat (n + 1) < length ps"
    unfolding rightIcon_shown_def s js_at_int by simp
  show "leftIcon_shown True (Finite (of_int n)) \<longleftrightarrow> 1 \<le> n"
    by (simp add: leftIcon_shown_def js_ge_def)
qed

theorem paging_indicators_witness:
  "rightIcon_shown True (Finite (of_int 0)) (map Some [[1, 2, 3, 4], [5 :: nat]])
   \<and> \<not> leftIcon_shown True (Finite (of_int 0))"
  using paging_indicators[of 0 "[[1, 2, 3, 4], [5 :: nat]]"] by simp


text \<open>
  A selected page that is not a finite number comes from a measured width of zero. Without
  scrolling neither affordance is rendered.
\<close>

lemma paging_indicators_non_finite:
  "\<not> rightIcon_shown scrollEnabled NaN pgs"
  "\<not> leftIcon_shown scrollEnabled NaN"
  "\<not> rightIcon_shown scrollEnabled PosInfinity pgs"
  "leftIcon_shown True PosInfinity"
  "\<not> rightIcon_shown scrollEnabled NegInfinity pgs"
  "\<not> leftIcon_shown scrollEnabled NegInfinity"
  by (simp_all add: rightIcon_shown_def leftIcon_shown_def js_ge_def)

lemma paging_indicators_disabled:
  "\<not> rightIcon_shown False selected pgs" "\<not> leftIcon_shown False selected"
  by (simp_all add: rightIcon_shown_def leftIcon_shown_def)

section \<open>Tab items\<close>

lemma map_from_ok:
  "(\<And>j. j < length xs \<Longrightarrow> \<exists>y. f (i + j) (xs ! j) = Inr y) \<Longrightarrow>
   \<exists>ys. map_from f i xs = Inr ys \<and> length ys = length xs
        \<and> (\<forall>j<length xs. f (i + j) (xs ! j) = Inr (ys ! j))"
proof (induction xs arbitrary: i)
  case Nil
  then show ?case by simp
next
  case (Cons x xs)
  from Cons.prems[of 0] obtain y where y: "f i x = Inr y" by auto
  have "\<And>j. j < length xs \<Longrightarrow> \<exists>y. f (Suc i + j) (xs ! j) = Inr y"
    using Cons.prems[of "Suc j" for j] by auto
  from Cons.IH[OF this] obtain ys where
    ys: "map_from f (Suc i) xs = Inr ys" "length ys = length xs"
    "\<forall>j<length xs. f (Suc i + j) (xs ! j) = Inr (ys ! j)" by blast
  have "\<forall>j<length (x # xs). f (i + j) ((x # xs) ! j) = Inr ((y # ys) ! j)"
  proof (intro allI impI)
    fix j assume "j < length (x # xs)"
    then show "f (i + j) ((x # xs) ! j) = Inr ((y # ys) ! j)"
      using y ys(3) by (cases j) auto
  qed
  with y ys show ?case by (intro exI[of _ "y # ys"]) simp
qed

lemma TabRoutes_items:
  assumes wf: "well_formed state descriptors"
  shows "\<exists>items b. shouldUseHorizontalLabels state descriptors lay dimensions = Inr b
     \<and> TabRoutes state descriptors lay dimensions defaultPrevented = Inr items
     \<and> length items = length (routes state)
     \<and> (\<forall>j<length (routes state).
           tab_item_of state descriptors defaultPrevented b j (routes state ! j) = Inr (items ! j))"
proof -
  from well_formed_horizontal[OF wf] obtain b where
    b: "shouldUseHorizontalLabels state descriptors lay dimensions = Inr b" by blast
  from wf have every: "list_all (\<lambda>r. descriptors (key r) \<noteq> None) (routes state)"
    by (simp add: well_formed_def)
  have "\<exists>y. tab_item_of state descriptors defaultPrevented b (0 + j) (routes state ! j) = Inr y"
    if "j < length (routes state)" for j
  proof -
    from every that have "descriptors (key (routes state ! j)) \<noteq> None"
      by (simp add: list_all_length)
    then show ?thesis by (auto simp: tab_item_of_def descriptor_options_def)
  qed
  from map_from_ok[of "routes state" "tab_item_of state descriptors defaultPrevented b" 0, OF this]
  obtain items where
    "map_from (tab_item_of state descriptors defaultPrevented b) 0 (routes state) = Inr items"
    "length items = length (routes state)"
    "\<forall>j<length (routes state).
       tab_item_of state descriptors defaultPrevented b j (routes state ! j) = Inr (items ! j)"
    by auto
  with b show ?thesis by (intro exI[of _ items] exI[of _ b]) (simp add: TabRoutes_def)
qed

lemma tab_item_of_Inr:
  assumes "tab_item_of state descriptors defaultPrevented b i r = Inr item"
  shows "item_onPress item = onPress state defaultPrevented i r"
    and "descriptors (key r) = Some d \<Longrightarrow> label_prop item = item_label (options d) r"
proof -
  from assms obtain opts where o: "descriptor_options descriptors r = Inr opts"
    and i: "item = \<lparr>item_route = r, item_focused = (i = index state), item_horizontal = b,
               item_onPress = onPress state defaultPrevented i r,
               label_prop = item_label opts r\<rparr>"
    by (auto simp: tab_item_of_def split: sum.splits)
  show "item_onPress item = onPress state defaultPrevented i r" by (simp add: i)
  show "label_prop item = item_label (options d) r" if "descriptors (key r) = Some d"
    using that o by (simp add: i descriptor_options_def)
qed

text \<open>
  Claim C9. On well-formed navigation data every route gets a tab item, and pressing the
  item of the route at position \<open>i\<close> emits a \<open>tabPress\<close> event that can be prevented,
  targeted at the key of that route; after it, a \<open>NAVIGATE\<close> action with the name of the
  route and \<open>merge: true\<close>, targeted at the key of the navigator's state, is dispatched
  exactly when the route is not the focused one and the event did not come back with its
  default prevented. Otherwise nothing is dispatched.
\<close>

theorem tabPress_dispatch:
  assumes "well_formed state descriptors" and "i < length (routes state)"
  shows "\<exists>items. TabRoutes state descriptors lay dimensions defaultPrevented = Inr items
     \<and> length items = length (routes state)
     \<and> item_onPress (items ! i) =
         Emit \<lparr>event_type = ''tabPress'', target = key (routes state ! i), canPreventDefault = True\<rparr>
         # (if i \<noteq> index state
               \<and> \<not> defaultPrevented \<lparr>event_type = ''tabPress'', target = key (routes state ! i),
                                      canPreventDefault = True\<rparr>
            then [Dispatch \<lparr>action_type = ''NAVIGATE'', payload_name = name (routes state ! i),
                            payload_merge = True, action_target = Some (state_key state)\<rparr>]
            else [])"
proof -
  from TabRoutes_items[OF assms(1), of lay dimensions defaultPrevented] obtain items b where
    t: "TabRoutes state descriptors lay dimensions defaultPrevented = Inr items"
    and l: "length items = length (routes state)"
    and e: "\<forall>j<length (routes state).
           tab_item_of state descriptors defaultPrevented b j (routes state ! j) = Inr (items ! j)"
    by blast
  from e assms(2) have
    "tab_item_of state descriptors defaultPrevented b i (routes state ! i) = Inr (items ! i)"
    by blast
  then have "item_onPress (items ! i) = onPress state defaultPrevented i (routes state ! i)"
    by (rule tab_item_of_Inr(1))
  then show ?thesis using t l
    by (intro exI[of _ items]) (simp add: onPress_def CommonActions_navigate_def Let_def)
qed

theorem tabPress_dispatch_witness:
  "well_formed example_state (example_descriptors StyleNull)
   \<and> 1 < length (routes example_state)
   \<and> (\<exists>items. TabRoutes example_state (example_descriptors StyleNull)
          \<lparr>height = 49, width = 390\<rparr> \<lparr>height = 844, width = 390\<rparr> (\<lambda>ev. False) = Inr items
        \<and> item_onPress (items ! 1) =
            [Emit \<lparr>event_type = ''tabPress'', target = ''b'', canPreventDefault = True\<rparr>,
             Dispatch \<lparr>action_type = ''NAVIGATE'', payload_name = ''b'',
                       payload_merge = True, action_target = Some ''tab-1''\<rparr>])"
proof -
  have l: "1 < length (routes example_state)" by (simp add: example_state_def)
  have v: "key (routes example_state ! Suc 0) = ''b''" "name (routes example_state ! Suc 0) = ''b''"
    "index example_state = 0" "state_key example_state = ''tab-1''"
    by (simp_all add: example_state_def example_route_def)
  from tabPress_dispatch[OF example_well_formed l, of StyleNull
      "\<lparr>height = 49, width = 390\<rparr>" "\<lparr>height = 844, width = 390\<rparr>" "\<lambda>ev. False"]
  have "\<exists>items. TabRoutes example_state (example_descriptors StyleNull)
          \<lparr>height = 49, width = 390\<rparr> \<lparr>height = 844, width = 390\<rparr> (\<lambda>ev. False) = Inr items
        \<and> item_onPress (items ! 1) =
            [Emit \<lparr>event_type = ''tabPress'', target = ''b'', canPreventDefault = True\<rparr>,
             Dispatch \<lparr>action_type = ''NAVIGATE'', payload_name = ''b'',
                       payload_merge = True, action_target = Some ''tab-1''\<rparr>]"
    by (auto simp: v)
  with l example_well_formed show ?thesis by blast
qed

text \<open>
  Claim C10. On well-formed navigation data the label handed to the tab item of a route is
  the \<open>tabBarLabel\<close> option of the route when it is defined, else its \<open>title\<close> option when
  that is defined, else the name of the route; it is never \<open>undefined\<close>.
\<close>

theorem label_fallback:
  assumes "well_formed state descriptors" and "i < length (routes state)"
    and "descriptors (key (routes state ! i)) = Some d"
  shows "\<exists>items. TabRoutes state descriptors lay dimensions defaultPrevented = Inr items
     \<and> length items = length (routes state)
     \<and> label_prop (items ! i) =
         Some (case tabBarLabel (options d) of
                 Some l \<Rightarrow> l
               | None \<Rightarrow>
                  (case title (options d) of
                     Some t \<Rightarrow> LabelText t
                   | None \<Rightarrow> LabelText (name (routes state ! i))))"
proof -
  from TabRoutes_items[OF assms(1), of lay dimensions defaultPrevented] obtain items b where
    t: "TabRoutes state descriptors lay dimensions defaultPrevented = Inr items"
    and l: "length items = length (routes state)"
    and e: "\<forall>j<length (routes state).
           tab_item_of state descriptors defaultPrevented b j (routes state ! j) = Inr (items ! j)"
    by blast
  from e assms(2) have
    "tab_item_of state descriptors defaultPrevented b i (routes state ! i) = Inr (items ! i)"
    by blast
  then have "label_prop (items ! i) = item_label (options d) (routes state ! i)"
    using assms(3) by (rule tab_item_of_Inr(2))
  then show ?thesis using t l
    by (intro exI[of _ items]) (auto simp: item_label_def split: option.splits)
qed

theorem label_fallback_witness:
  "well_formed example_state (example_descriptors StyleNull)
   \<and> 2 < length (routes example_state)
   \<and> example_descriptors StyleNull (key (routes example_state ! 2))
       = Some \<lparr>options = example_options StyleNull\<rparr>
   \<and> (\<exists>items. TabRoutes example_state (example_descriptors StyleNull)
          \<lparr>height = 49, width = 390\<rparr> \<lparr>height = 844, width = 390\<rparr> (\<lambda>ev. False) = Inr items
        \<and> label_prop (items ! 2) = Some (LabelText ''c''))"
proof -
  have l: "2 < length (routes example_state)" by (simp add: example_state_def)
  have d: "example_descriptors StyleNull (key (routes example_state ! 2))
       = Some \<lparr>options = example_options StyleNull\<rparr>"
    by (simp add: example_state_def example_route_def example_descriptors_def)
  have v: "name (routes example_state ! 2) = ''c''"
    "tabBarLabel (example_options StyleNull) = None" "title (example_options StyleNull) = None"
    by (simp_all add: example_state_def example_route_def example_options_def)
  from label_fallback[OF example_well_formed l d,
      of "\<lparr>height = 49, width = 390\<rparr>" "\<lparr>height = 844, width = 390\<rparr>" "\<lambda>ev. False"]
  have "\<exists>items. TabRoutes example_state (example_descriptors StyleNull)
          \<lparr>height = 49, width = 390\<rparr> \<lparr>height = 844, width = 390\<rparr> (\<lambda>ev. False) = Inr items
        \<and> label_prop (items ! 2) = Some (LabelText ''c'')"
    by (auto simp: v)
  with l d example_well_formed show ?thesis by blast
qed


section \<open>Visibility of the tab bar\<close>

lemma stopAnimation_hidden: "isTabBarHidden (stopAnimation s) = isTabBarHidden s"
  by (simp add: stopAnimation_def run_callback_def split: option.splits end_callback.splits)

lemma stopAnimation_none: "visible_animation (stopAnimation s) = None"
  by (simp add: stopAnimation_def run_callback_def split: option.splits end_callback.splits)

lemma stopAnimation_visible: "visible (stopAnimation s) = visible s"
  by (simp add: stopAnimation_def run_callback_def split: option.splits end_callback.splits)

lemma start_animation: "visible_animation (start a s) = Some a"
  by (simp add: start_def)

lemma start_hidden: "isTabBarHidden (start a s) = isTabBarHidden s"
  by (simp add: start_def stopAnimation_hidden)

text \<open>
  Claim C2, as the code has it. When should-show becomes true, in whatever state the bar
  is, the show animation starts at once: toward 1, of the kind and duration of the show
  config, which are \<open>timing\<close> and 250 without a config. Starting it leaves
  \<open>isTabBarHidden\<close> as it was, and so does stopping it before its end; the flag becomes
  false when the animation reaches its end, and the value is then settled at 1.
\<close>

theorem show_direction:
  "visible_animation (shouldShow_changed platform cfg True s)
     = Some \<lparr>kind = animation_of (show_of cfg), toValue = 1,
             nativeDriver = useNativeDriver platform,
             duration = duration_of 250 (show_of cfg), callback = ClearHiddenIfFinished\<rparr>
   \<and> visible_animation (shouldShow_changed platform None True s)
     = Some \<lparr>kind = Timing, toValue = 1, nativeDriver = useNativeDriver platform,
             duration = 250, callback = ClearHiddenIfFinished\<rparr>
   \<and> isTabBarHidden (shouldShow_changed platform cfg True s) = isTabBarHidden s
   \<and> isTabBarHidden (stopAnimation (shouldShow_changed platform cfg True s)) = isTabBarHidden s
   \<and> \<not> isTabBarHidden (animation_end (shouldShow_changed platform cfg True s))
   \<and> visible (animation_end (shouldShow_changed platform cfg True s)) = 1
   \<and> visible_animation (animation_end (shouldShow_changed platform cfg True s)) = None"
proof -
  let ?a = "\<lparr>kind = animation_of (show_of cfg), toValue = 1,
             nativeDriver = useNativeDriver platform,
             duration = duration_of 250 (show_of cfg), callback = ClearHiddenIfFinished\<rparr>"
  have s1: "shouldShow_changed platform cfg True s = start ?a (stopAnimation s)"
    by (simp add: shouldShow_changed_def visibility_effect_def visibility_cleanup_def)
  have a: "visible_animation (shouldShow_changed platform cfg True s) = Some ?a"
    by (simp add: s1 start_animation)
  have n: "visible_animation (shouldShow_changed platform None True s)
     = Some \<lparr>kind = Timing, toValue = 1, nativeDriver = useNativeDriver platform,
             duration = 250, callback = ClearHiddenIfFinished\<rparr>"
    by (simp add: shouldShow_changed_def visibility_effect_def start_animation
          animation_of_def duration_of_def show_of_def)
  have h: "isTabBarHidden (shouldShow_changed platform cfg True s) = isTabBarHidden s"
    by (simp add: s1 start_hidden stopAnimation_hidden)
  have e: "animation_end (shouldShow_changed platform cfg True s)
            = (shouldShow_changed platform cfg True s)
                \<lparr>visible := 1, visible_animation := None, isTabBarHidden := False\<rparr>"
    by (simp add: animation_end_def a run_callback_def)
  show ?thesis
    using a n h by (simp add: e stopAnimation_hidden)
qed

theorem show_direction_witness:
  "isTabBarHidden hidden_bar
   \<and> isTabBarHidden (shouldShow_changed \<lparr>OS = Android, isPad = False\<rparr> None True hidden_bar)
   \<and> \<not> isTabBarHidden
         (animation_end (shouldShow_changed \<lparr>OS = Android, isPad = False\<rparr> None True hidden_bar))"
proof -
  have h: "isTabBarHidden hidden_bar" by (simp add: hidden_bar_def)
  with show_direction[of "\<lparr>OS = Android, isPad = False\<rparr>" None hidden_bar]
  show ?thesis by simp
qed

text \<open>
  Claim C2 as stated fails: from the hidden state, once the show animation has started
  and is still running, \<open>isTabBarHidden\<close> is still true and the container is still out of
  the layout flow.
\<close>

theorem show_start_keeps_hidden:
  "isTabBarHidden hidden_bar
   \<and> visible_animation (shouldShow_changed \<lparr>OS = Ios, isPad = False\<rparr> None True hidden_bar)
       = Some \<lparr>kind = Timing, toValue = 1, nativeDriver = True, duration = 250,
               callback = ClearHiddenIfFinished\<rparr>
   \<and> isTabBarHidden (shouldShow_changed \<lparr>OS = Ios, isPad = False\<rparr> None True hidden_bar)
   \<and> out_of_layout_flow (shouldShow_changed \<lparr>OS = Ios, isPad = False\<rparr> None True hidden_bar)"
  by (simp add: hidden_bar_def shouldShow_changed_def visibility_effect_def visibility_cleanup_def
        start_def stopAnimation_def animation_of_def duration_of_def show_of_def
        useNativeDriver_def out_of_layout_flow_def)

text \<open>
  Claim C3. When should-show becomes false, in whatever state the bar is, \<open>isTabBarHidden\<close>
  is true and the container out of the layout flow as soon as the effect has run, while
  the hide animation it started is still running: toward 0, of the kind and duration of
  the hide config, which are \<open>timing\<close> and 200 without a config. When the animation
  reaches its end the value is settled at 0, no animation runs and \<open>isTabBarHidden\<close> is
  true: the bar is hidden.
\<close>

theorem hide_direction:
  "isTabBarHidden (shouldShow_changed platform cfg False s)
   \<and> out_of_layout_flow (shouldShow_changed platform cfg False s)
   \<and> visible_animation (shouldShow_changed platform cfg False s)
       = Some \<lparr>kind = animation_of (hide_of cfg), toValue = 0,
               nativeDriver = useNativeDriver platform,
               duration = duration_of 200 (hide_of cfg), callback = NoCallback\<rparr>
   \<and> visible_animation (shouldShow_changed platform None False s)
       = Some \<lparr>kind = Timing, toValue = 0, nativeDriver = useNativeDriver platform,
               duration = 200, callback = NoCallback\<rparr>
   \<and> visible (animation_end (shouldShow_changed platform cfg False s)) = 0
   \<and> visible_animation (animation_end (shouldShow_changed platform cfg False s)) = None
   \<and> isTabBarHidden (animation_end (shouldShow_changed platform cfg False s))"
proof -
  let ?a = "\<lparr>kind = animation_of (hide_of cfg), toValue = 0,
               nativeDriver = useNativeDriver platform,
               duration = duration_of 200 (hide_of cfg), callback = NoCallback\<rparr>"
  have s1: "shouldShow_changed platform cfg False s
              = start ?a ((stopAnimation s)\<lparr>isTabBarHidden := True\<rparr>)"
    by (simp add: shouldShow_changed_def visibility_effect_def visibility_cleanup_def)
  have a: "visible_animation (shouldShow_changed platform cfg False s) = Some ?a"
    by (simp add: s1 start_animation)
  have n: "visible_animation (shouldShow_changed platform None False s)
       = Some \<lparr>kind = Timing, toValue = 0, nativeDriver = useNativeDriver platform,
               duration = 200, callback = NoCallback\<rparr>"
    by (simp add: shouldShow_changed_def visibility_effect_def start_animation
          animation_of_def duration_of_def hide_of_def)
  have h: "isTabBarHidden (shouldShow_changed platform cfg False s)"
    by (simp add: s1 start_hidden)
  have e: "animation_end (shouldShow_changed platform cfg False s)
            = (shouldShow_changed platform cfg False s)\<lparr>visible := 0, visible_animation := None\<rparr>"
    by (simp add: animation_end_def a run_callback_def)
  show ?thesis
    using a n h by (simp add: e out_of_layout_flow_def)
qed

theorem hide_direction_witness:
  "isTabBarHidden (shouldShow_changed \<lparr>OS = Ios, isPad = False\<rparr> None False example_bar)
   \<and> visible_animation (shouldShow_changed \<lparr>OS = Ios, isPad = False\<rparr> None False example_bar)
       = Some \<lparr>kind = Timing, toValue = 0, nativeDriver = True, duration = 200,
               callback = NoCallback\<rparr>
   \<and> visible (animation_end (shouldShow_changed \<lparr>OS = Ios, isPad = False\<rparr> None False example_bar)) = 0"
  using hide_direction[of "\<lparr>OS = Ios, isPad = False\<rparr>" None example_bar]
  by (simp add: useNativeDriver_def animation_of_def duration_of_def hide_of_def)


text \<open>
  A run of the machine on Android: the bar is mounted shown and its first show animation
  ends; the keyboard comes up on a route that hides the bar on keyboard, the hide
  animation ends; the keyboard goes away, and the bar is back in the layout flow only at
  the end of the show animation.
\<close>

lemma keyboard_scenario:
  "shouldShowTabBar (example_options StyleNull) True"
  "\<not> shouldShowTabBar ((example_options StyleNull)\<lparr>tabBarHideOnKeyboard := Some True\<rparr>) True"
  "animation_end (visibility_effect \<lparr>OS = Android, isPad = False\<rparr> None True
      (initial_state True \<lparr>height = 844, width = 390\<rparr>))
     = initial_state True \<lparr>height = 844, width = 390\<rparr>"
  "animation_end (shouldShow_changed \<lparr>OS = Android, isPad = False\<rparr> None False
      (initial_state True \<lparr>height = 844, width = 390\<rparr>))
     = initial_state False \<lparr>height = 844, width = 390\<rparr>"
  "out_of_layout_flow (shouldShow_changed \<lparr>OS = Android, isPad = False\<rparr> None True
      (initial_state False \<lparr>height = 844, width = 390\<rparr>))"
  "animation_end (shouldShow_changed \<lparr>OS = Android, isPad = False\<rparr> None True
      (initial_state False \<lparr>height = 844, width = 390\<rparr>))
     = initial_state True \<lparr>height = 844, width = 390\<rparr>"
  by (simp_all add: shouldShowTabBar_def example_options_def initial_state_def
        shouldShow_changed_def visibility_effect_def visibility_cleanup_def start_def
        stopAnimation_def animation_end_def run_callback_def out_of_layout_flow_def)

section \<open>The deprecated options\<close>

lemma from_tabBarOptions_assign:
  "Object_assign [] (from_tabBarOptions [] bag) = from_tabBarOptions [] bag"
  by (simp add: Object_assign_def from_tabBarOptions_def)


lemma map_of_delete_undefined:
  "distinct (map fst obj) \<Longrightarrow>
   map_of (delete_undefined obj) k =
     (case map_of obj k of None \<Rightarrow> None | Some v \<Rightarrow> if v = Undefined then None else Some v)"
proof (induction obj)
  case Nil
  then show ?case by (simp add: delete_undefined_def)
next
  case (Cons kv obj)
  obtain k' v' where kv: "kv = (k', v')" by (cases kv)
  from Cons.prems have d: "distinct (map fst obj)" and n: "k' \<notin> fst ` set obj"
    by (simp_all add: kv)
  from n have "map_of obj k' = None" by (simp add: map_of_eq_None_iff)
  then show ?case using Cons.IH[OF d]
    by (auto simp: delete_undefined_def kv split: option.splits)
qed

lemma from_tabBarOptions_keys:
  "map fst (from_tabBarOptions d bag) =
     [''tabBarHideOnKeyboard'', ''tabBarActiveTintColor'', ''tabBarInactiveTintColor'',
      ''tabBarActiveBackgroundColor'', ''tabBarInactiveBackgroundColor'',
      ''tabBarAllowFontScaling'', ''tabBarShowLabel'', ''tabBarLabelStyle'', ''tabBarIconStyle'',
      ''tabBarItemStyle'', ''tabBarLabelPosition'', ''tabBarStyle'']"
  by (simp add: from_tabBarOptions_def)

lemma from_tabBarOptions_distinct: "distinct (map fst (from_tabBarOptions d bag))"
  unfolding from_tabBarOptions_keys by simp

lemma from_tabBarOptions_activeTintColor:
  "map_of (from_tabBarOptions d bag) ''tabBarActiveTintColor''
     = Some (or_undefined Text (activeTintColor bag))"
  by (simp add: from_tabBarOptions_def)

lemma from_tabBarOptions_tabBarStyle:
  "map_of (from_tabBarOptions [] bag) ''tabBarStyle''
     = Some (StyleValue (StyleArray
         [StyleObject
            [(''display'', Keyword (if tabBarVisible bag = Some True then ''none'' else ''flex''))],
          StyleNull]))"
  by (simp add: from_tabBarOptions_def style_property_def)

lemma defaultScreenOptions_lookup:
  "k \<noteq> ''lazy'' \<Longrightarrow>
   map_of (defaultScreenOptions (Some bag) lazy) k =
     (case map_of (from_tabBarOptions [] bag) k of
        None \<Rightarrow> None
      | Some v \<Rightarrow> if v = Undefined then None else Some v)"
  by (simp add: defaultScreenOptions_def from_tabBarOptions_assign update_conv'
        map_of_delete_undefined[OF from_tabBarOptions_distinct] Let_def split: option.splits)

lemma activeTintColor_mapped:
  "activeTintColor bag = Some c \<Longrightarrow>
   map_of (defaultScreenOptions (Some bag) lazy) ''tabBarActiveTintColor'' = Some (Text c)"
  by (simp add: defaultScreenOptions_lookup from_tabBarOptions_activeTintColor or_undefined_def)

lemma tabBarStyle_display:
  "map_of (defaultScreenOptions (Some bag) lazy) ''tabBarStyle''
     = Some (StyleValue (StyleArray
         [StyleObject
            [(''display'', Keyword (if tabBarVisible bag = Some True then ''none'' else ''flex''))],
          StyleNull]))"
  by (simp add: defaultScreenOptions_lookup from_tabBarOptions_tabBarStyle)

text \<open>
  Claim C1 at the bag \<open>{ activeTintColor: 'red', tabBarVisible: false }\<close>: the normalized
  options hold \<open>tabBarActiveTintColor: 'red'\<close>, as the claim says, but their \<open>tabBarStyle\<close>
  has \<open>display: 'flex'\<close> where the claim says \<open>display: 'none'\<close>.
\<close>

theorem tabBarVisible_false_displays_flex:
  "map_of (defaultScreenOptions (Some legacy_bag) None) ''tabBarActiveTintColor'' = Some (Text ''red'')
   \<and> tabBarVisible legacy_bag = Some False
   \<and> map_of (defaultScreenOptions (Some legacy_bag) None) ''tabBarStyle''
       = Some (StyleValue (StyleArray [StyleObject [(''display'', Keyword ''flex'')], StyleNull]))
   \<and> (case flatten (style_property (defaultScreenOptions (Some legacy_bag) None) ''tabBarStyle'') of
         None \<Rightarrow> None
       | Some flattened \<Rightarrow> flattened ''display'') = Some (Keyword ''flex'')"
proof -
  have a: "activeTintColor legacy_bag = Some ''red''" and v: "tabBarVisible legacy_bag = Some False"
    by (simp_all add: legacy_bag_def)
  show ?thesis
    by (simp add: activeTintColor_mapped[OF a] tabBarStyle_display v style_property_def)
qed


end
